theory Spec2Isabelle
  imports Main "HOL-Library.Sublist" "HOL-Library.Word"
begin

section \<open>Python values\<close>

text \<open>
  A Python \<^verbatim>\<open>str\<close> is a sequence of Unicode code points, a \<^verbatim>\<open>bytes\<close> object a
  sequence of octets. Code points are kept as natural numbers, so that a lone
  surrogate (which a \<^verbatim>\<open>str\<close> may hold and UTF-8 cannot encode) is a value of the
  model. \<open>S\<close> reads an ASCII literal of the source as a \<^verbatim>\<open>str\<close>.
\<close>

type_synonym pystr = "nat list"
type_synonym byte = "8 word"

definition S :: "string \<Rightarrow> pystr" where
  "S lit = map of_char lit"

text \<open>\<^verbatim>\<open>str(n)\<close> of a non-negative integer: its decimal digits.\<close>

function digits :: "nat \<Rightarrow> pystr" where
  "digits n = (if n < 10 then [48 + n] else digits (n div 10) @ [48 + n mod 10])"
  by pat_completeness auto
termination
  by (relation "measure id") auto

declare digits.simps [simp del]

text \<open>The format specification \<^verbatim>\<open>{n:0Wd}\<close>: the digits, filled with \<^verbatim>\<open>0\<close> on the left up to width W.\<close>

definition zero_pad :: "nat \<Rightarrow> nat \<Rightarrow> pystr" where
  "zero_pad width n = replicate (width - length (digits n)) 48 @ digits n"

text \<open>\<^verbatim>\<open>sep.join(parts)\<close>.\<close>

fun join :: "pystr \<Rightarrow> pystr list \<Rightarrow> pystr" where
  "join sep [] = []"
| "join sep [x] = x"
| "join sep (x # y # ys) = x @ sep @ join sep (y # ys)"

text \<open>
  \<^verbatim>\<open>image_filename = f"image_{page_num:03d}_{img_index+1:02d}.{img_ext}"\<close>
  (the same line in both versions of the converter).
\<close>

definition image_filename :: "nat \<Rightarrow> nat \<Rightarrow> pystr \<Rightarrow> pystr" where
  "image_filename page_num img_index img_ext =
     S ''image_'' @ zero_pad 3 page_num @ S ''_'' @ zero_pad 2 (img_index + 1) @ S ''.'' @ img_ext"


text \<open>\<^verbatim>\<open>s.endswith(suf)\<close> and \<^verbatim>\<open>s.lower()\<close>. Only the letters A to Z are folded:
  no other character lowercases to one of \<^verbatim>\<open>.pdf\<close>, the only suffix the source tests.\<close>

definition endswith :: "pystr \<Rightarrow> pystr \<Rightarrow> bool" where
  "endswith s suf = (length suf \<le> length s \<and> drop (length s - length suf) s = suf)"

definition lower :: "pystr \<Rightarrow> pystr" where
  "lower s = map (\<lambda>c. if 65 \<le> c \<and> c \<le> 90 then c + 32 else c) s"

text \<open>
  \<^verbatim>\<open>s.encode("utf-8")\<close>, as a file opened with \<^verbatim>\<open>encoding="utf-8"\<close> does on
  \<^verbatim>\<open>write\<close>: a surrogate code point raises UnicodeEncodeError (the result None).
\<close>

definition is_surrogate :: "nat \<Rightarrow> bool" where
  "is_surrogate c = (0xD800 \<le> c \<and> c \<le> 0xDFFF)"

definition utf8_char :: "nat \<Rightarrow> byte list" where
  "utf8_char c =
     (if c < 0x80 then [of_nat c]
      else if c < 0x800 then [of_nat (0xC0 + c div 0x40), of_nat (0x80 + c mod 0x40)]
      else if c < 0x10000 then
        [of_nat (0xE0 + c div 0x1000), of_nat (0x80 + c div 0x40 mod 0x40),
         of_nat (0x80 + c mod 0x40)]
      else
        [of_nat (0xF0 + c div 0x40000), of_nat (0x80 + c div 0x1000 mod 0x40),
         of_nat (0x80 + c div 0x40 mod 0x40), of_nat (0x80 + c mod 0x40)])"

definition utf8_encode :: "pystr \<Rightarrow> byte list option" where
  "utf8_encode s = (if list_ex is_surrogate s then None else Some (concat (map utf8_char s)))"

text \<open>\<^verbatim>\<open>base64.b64encode(img_bytes).decode()\<close>: the standard alphabet, padded with \<^verbatim>\<open>=\<close>.\<close>

definition b64_char :: "nat \<Rightarrow> nat" where
  "b64_char v =
     (if v < 26 then 65 + v else if v < 52 then 97 + (v - 26)
      else if v < 62 then 48 + (v - 52) else if v = 62 then 43 else 47)"

fun b64_groups :: "nat list \<Rightarrow> pystr" where
  "b64_groups [] = []"
| "b64_groups [a] = [b64_char (a div 4), b64_char (a mod 4 * 16), 61, 61]"
| "b64_groups [a, b] =
     [b64_char (a div 4), b64_char (a mod 4 * 16 + b div 16), b64_char (b mod 16 * 4), 61]"
| "b64_groups (a # b # c # rest) =
     [b64_char (a div 4), b64_char (a mod 4 * 16 + b div 16),
      b64_char (b mod 16 * 4 + c div 64), b64_char (c mod 64)] @ b64_groups rest"

definition b64encode :: "byte list \<Rightarrow> pystr" where
  "b64encode bs = b64_groups (map unat bs)"

section \<open>Paths\<close>

text \<open>
  A \<^verbatim>\<open>pathlib.Path\<close> is the list of its components; \<^verbatim>\<open>a / b\<close> is \<open>a @ b\<close>,
  \<^verbatim>\<open>p.parent\<close> is \<open>butlast p\<close>.
\<close>

type_synonym path = "pystr list"

definition path_name :: "path \<Rightarrow> pystr" where
  "path_name p = (if p = [] then [] else last p)"

text \<open>\<^verbatim>\<open>p.relative_to(base)\<close>: ValueError (None) when \<open>base\<close> is not a prefix of \<open>p\<close>.\<close>

definition relative_to :: "path \<Rightarrow> path \<Rightarrow> path option" where
  "relative_to p base = (if prefix base p then Some (drop (length base) p) else None)"

text \<open>
  \<^verbatim>\<open>PurePath.suffix\<close>: from the last dot of the name, when that dot is neither the
  first nor the last character; \<^verbatim>\<open>with_suffix\<close> replaces it, or appends when the name
  has none, and raises ValueError (None) on a path with an empty name.
\<close>

definition py_suffix :: "pystr \<Rightarrow> pystr" where
  "py_suffix name =
     (let after_dot = length (takeWhile (\<lambda>c. c \<noteq> 46) (rev name))
      in if after_dot = length name then []
         else (let i = length name - after_dot - 1
               in if 0 < i \<and> i < length name - 1 then drop i name else []))"

definition with_suffix :: "path \<Rightarrow> pystr \<Rightarrow> path option" where
  "with_suffix p suf =
     (if p = [] then None
      else (let name = last p; old_suffix = py_suffix name
            in Some (butlast p @ [take (length name - length old_suffix) name @ suf])))"

section \<open>The filesystem and the log\<close>

datatype error =
    ExtractionFailed
  | ConversionFailed
  | ValueError
  | AttributeError
  | FileExistsError
  | NotADirectoryError
  | IsADirectoryError
  | FileNotFoundError
  | UnicodeEncodeError

text \<open>The records the source writes with \<^verbatim>\<open>logging.info\<close> and \<^verbatim>\<open>logging.error\<close>, one
  constructor per message, holding the values the message is formatted from.\<close>

datatype log_record =
    Converting_with_PyMuPDF path path
  | PyMuPDF_converted pystr nat
  | PyMuPDF_failed path error
  | Converting_with_markitdown path path
  | Markitdown_converted pystr
  | Markitdown_failed path error
  | Failed_to_process path error
  | No_PDF_files_found
  | Found_PDF_files nat
  | Using_worker_processes int
  | Successfully_processed nat nat

text \<open>
  The world a run acts on: the regular files with their bytes, the directories, and the
  log written so far. The store is taken to have room and the process permission to
  write; the failures of the model are those the state of the filesystem decides.
\<close>

record world =
  files :: "path \<rightharpoonup> byte list"
  dirs :: "path set"
  logged :: "log_record list"

definition log_info :: "log_record \<Rightarrow> world \<Rightarrow> world" where
  "log_info r w = w\<lparr>logged := logged w @ [r]\<rparr>"

text \<open>
  \<^verbatim>\<open>p.mkdir(parents=True, exist_ok=True)\<close>: a regular file in the way raises
  (NotADirectoryError for an ancestor, FileExistsError for the path itself); otherwise
  the path and its missing ancestors become directories, and an existing directory is
  left as it is.
\<close>

definition mkdir_parents :: "path \<Rightarrow> world \<Rightarrow> error + world" where
  "mkdir_parents p w =
     (if list_ex (\<lambda>q. q \<noteq> p \<and> files w q \<noteq> None) (prefixes p) then Inl NotADirectoryError
      else if files w p \<noteq> None then Inl FileExistsError
      else Inr (w\<lparr>dirs := dirs w \<union> set (prefixes p)\<rparr>))"

text \<open>
  \<^verbatim>\<open>open(p, "w")\<close> and \<^verbatim>\<open>open(p, "wb")\<close>: the file is created, or truncated when it
  exists, at the moment it is opened.
\<close>

definition open_w :: "path \<Rightarrow> world \<Rightarrow> error + world" where
  "open_w p w =
     (if p \<in> dirs w then Inl IsADirectoryError
      else if butlast p \<notin> dirs w then Inl FileNotFoundError
      else Inr (w\<lparr>files := (files w)(p \<mapsto> [])\<rparr>))"

definition write_bytes :: "path \<Rightarrow> byte list \<Rightarrow> world \<Rightarrow> world" where
  "write_bytes p bs w = w\<lparr>files := (files w)(p \<mapsto> bs)\<rparr>"

definition write_text :: "path \<Rightarrow> pystr \<Rightarrow> world \<Rightarrow> error + world" where
  "write_text p s w =
     (case utf8_encode s of
        None \<Rightarrow> Inl UnicodeEncodeError
      | Some bs \<Rightarrow> Inr (write_bytes p bs w))"


section \<open>The two engines\<close>

text \<open>
  PyMuPDF (\<^verbatim>\<open>fitz\<close>) and markitdown are libraries outside the repository. A call that
  raises is the value None. A document is the list of its pages; a page gives its text
  and the list of its image references, and \<^verbatim>\<open>doc.extract_image(xref)\<close> of a reference
  gives the dictionary \<^verbatim>\<open>base_image\<close> with the keys \<^verbatim>\<open>"image"\<close> and \<^verbatim>\<open>"ext"\<close>.
\<close>

record base_image =
  img_bytes :: "byte list"
  img_ext :: pystr

record page =
  get_text :: "pystr option"
  get_images :: "base_image option list option"

type_synonym document = "page list"

record engines =
  fitz_open :: "path \<Rightarrow> document option"
  markitdown_convert :: "path \<Rightarrow> pystr option"

section \<open>The converter\<close>

text \<open>
  The repository holds two versions of the converter:
  \<^verbatim>\<open>Images_working_properly_v1/pdf_to_markdown_converter_alternative2.py\<close> (module-level
  functions, the image folder an option of the command line) and
  \<^verbatim>\<open>Parallel_processing_v3/pdf_converter_enhanced.py\<close> (the class PDFConverter, the
  image folder fixed to \<^verbatim>\<open>images\<close>). Their conversion functions are the same text but
  for the expressions marked below, which the model selects by the version.
\<close>

datatype version = V1 | V3

record PDFConverter =
  embed_images :: bool
  image_format :: pystr
  dpi :: nat

text \<open>
  The body of the inner loop of \<^verbatim>\<open>convert_pdf_with_pymupdf\<close>, for one image reference:
  the Markdown fragment appended to \<^verbatim>\<open>markdown_parts\<close>, or the exception raised,
  with the world as the statements executed so far left it. With
  \<^verbatim>\<open>image_folder = None\<close> the call \<^verbatim>\<open>image_folder.mkdir\<close> raises AttributeError.
  V1 writes \<^verbatim>\<open>rel_path = f"{image_folder.name}/{image_filename}"\<close>, V3
  \<^verbatim>\<open>rel_path = f"images/{image_filename}"\<close>.
\<close>

definition place_image ::
  "version \<Rightarrow> bool \<Rightarrow> path option \<Rightarrow> nat \<Rightarrow> nat \<Rightarrow> base_image option \<Rightarrow> world
     \<Rightarrow> (error + pystr) \<times> world" where
  "place_image ver emb image_folder page_num img_index img w =
     (case img of
        None \<Rightarrow> (Inl ExtractionFailed, w)
      | Some base_image \<Rightarrow>
          (let filename = image_filename page_num img_index (img_ext base_image)
           in if emb then
                (Inr (S ''![Image](data:image/'' @ img_ext base_image @ S '';base64,''
                        @ b64encode (img_bytes base_image) @ S '')'' @ [10]), w)
              else
                (case image_folder of
                   None \<Rightarrow> (Inl AttributeError, w)
                 | Some folder \<Rightarrow>
                     (case mkdir_parents folder w of
                        Inl e \<Rightarrow> (Inl e, w)
                      | Inr w1 \<Rightarrow>
                          (case open_w (folder @ [filename]) w1 of
                             Inl e \<Rightarrow> (Inl e, w1)
                           | Inr w2 \<Rightarrow>
                               (let w3 = write_bytes (folder @ [filename]) (img_bytes base_image) w2;
                                    rel_path = (case ver of V1 \<Rightarrow> path_name folder | V3 \<Rightarrow> S ''images'')
                                                 @ S ''/'' @ filename
                                in (Inr (S ''![Image]('' @ rel_path @ S '')'' @ [10]), w3)))))))"

text \<open>\<^verbatim>\<open>for img_index, img in enumerate(images)\<close>, carrying \<^verbatim>\<open>markdown_parts\<close> and
  \<^verbatim>\<open>image_count\<close>.\<close>

fun images_loop ::
  "version \<Rightarrow> bool \<Rightarrow> path option \<Rightarrow> nat \<Rightarrow> nat \<Rightarrow> base_image option list
     \<Rightarrow> pystr list \<times> nat \<Rightarrow> world \<Rightarrow> (error + pystr list \<times> nat) \<times> world" where
  "images_loop ver emb image_folder page_num img_index [] acc w = (Inr acc, w)"
| "images_loop ver emb image_folder page_num img_index (img # imgs) (markdown_parts, image_count) w =
     (case place_image ver emb image_folder page_num img_index img w of
        (Inl e, w1) \<Rightarrow> (Inl e, w1)
      | (Inr fragment, w1) \<Rightarrow>
          images_loop ver emb image_folder page_num (Suc img_index) imgs
            (markdown_parts @ [fragment], Suc image_count) w1)"

text \<open>\<^verbatim>\<open>for page_num, page in enumerate(doc, start=1)\<close>; the first fragment of a page is
  \<^verbatim>\<open>f"### Page {page_num}\n\n{text}\n"\<close>.\<close>

definition page_header :: "nat \<Rightarrow> pystr \<Rightarrow> pystr" where
  "page_header page_num text = S ''### Page '' @ digits page_num @ [10, 10] @ text @ [10]"

fun pages_loop ::
  "version \<Rightarrow> bool \<Rightarrow> path option \<Rightarrow> nat \<Rightarrow> page list
     \<Rightarrow> pystr list \<times> nat \<Rightarrow> world \<Rightarrow> (error + pystr list \<times> nat) \<times> world" where
  "pages_loop ver emb image_folder page_num [] acc w = (Inr acc, w)"
| "pages_loop ver emb image_folder page_num (page # pages) (markdown_parts, image_count) w =
     (case get_text page of
        None \<Rightarrow> (Inl ExtractionFailed, w)
      | Some text \<Rightarrow>
          (case get_images page of
             None \<Rightarrow> (Inl ExtractionFailed, w)
           | Some images \<Rightarrow>
               (case images_loop ver emb image_folder page_num 0 images
                       (markdown_parts @ [page_header page_num text], image_count) w of
                  (Inl e, w1) \<Rightarrow> (Inl e, w1)
                | (Inr acc1, w1) \<Rightarrow>
                    pages_loop ver emb image_folder (Suc page_num) pages acc1 w1)))"

text \<open>
  The \<^verbatim>\<open>try\<close> block of \<^verbatim>\<open>convert_pdf_with_pymupdf\<close>: the output file is opened and
  written once, after both loops.
\<close>

definition pymupdf_try ::
  "version \<Rightarrow> bool \<Rightarrow> engines \<Rightarrow> path \<Rightarrow> path \<Rightarrow> path option \<Rightarrow> world
     \<Rightarrow> (error + unit) \<times> world" where
  "pymupdf_try ver emb env pdf_path output_path image_folder w =
     (let w0 = log_info (Converting_with_PyMuPDF pdf_path output_path) w
      in case fitz_open env pdf_path of
           None \<Rightarrow> (Inl ExtractionFailed, w0)
         | Some doc \<Rightarrow>
             (case pages_loop ver emb image_folder 1 doc ([], 0) w0 of
                (Inl e, w1) \<Rightarrow> (Inl e, w1)
              | (Inr (markdown_parts, image_count), w1) \<Rightarrow>
                  (case open_w output_path w1 of
                     Inl e \<Rightarrow> (Inl e, w1)
                   | Inr w2 \<Rightarrow>
                       (case write_text output_path (join [10] markdown_parts) w2 of
                          Inl e \<Rightarrow> (Inl e, w2)
                        | Inr w3 \<Rightarrow>
                            (Inr (), log_info (PyMuPDF_converted (path_name pdf_path) image_count) w3)))))"

text \<open>\<^verbatim>\<open>convert_pdf_with_pymupdf\<close>: True, or False with the exception logged.\<close>

definition convert_pdf_with_pymupdf ::
  "version \<Rightarrow> bool \<Rightarrow> engines \<Rightarrow> path \<Rightarrow> path \<Rightarrow> path option \<Rightarrow> world \<Rightarrow> bool \<times> world" where
  "convert_pdf_with_pymupdf ver emb env pdf_path output_path image_folder w =
     (case pymupdf_try ver emb env pdf_path output_path image_folder w of
        (Inr u, w1) \<Rightarrow> (True, w1)
      | (Inl e, w1) \<Rightarrow> (False, log_info (PyMuPDF_failed pdf_path e) w1))"

text \<open>
  \<^verbatim>\<open>convert_pdf_with_markitdown\<close> returns nothing: every exception is logged and
  swallowed. Only V3 logs the success.
\<close>

definition markitdown_try :: "version \<Rightarrow> engines \<Rightarrow> path \<Rightarrow> path \<Rightarrow> world \<Rightarrow> (error + unit) \<times> world" where
  "markitdown_try ver env pdf_path output_path w =
     (case markitdown_convert env pdf_path of
        None \<Rightarrow> (Inl ConversionFailed, w)
      | Some output \<Rightarrow>
          (case open_w output_path w of
             Inl e \<Rightarrow> (Inl e, w)
           | Inr w1 \<Rightarrow>
               (case write_text output_path output w1 of
                  Inl e \<Rightarrow> (Inl e, w1)
                | Inr w2 \<Rightarrow>
                    (Inr (), case ver of V1 \<Rightarrow> w2
                                       | V3 \<Rightarrow> log_info (Markitdown_converted (path_name pdf_path)) w2))))"

definition convert_pdf_with_markitdown :: "version \<Rightarrow> engines \<Rightarrow> path \<Rightarrow> path \<Rightarrow> world \<Rightarrow> world" where
  "convert_pdf_with_markitdown ver env pdf_path output_path w =
     (case markitdown_try ver env pdf_path output_path
             (log_info (Converting_with_markitdown pdf_path output_path) w) of
        (Inr u, w1) \<Rightarrow> w1
      | (Inl e, w1) \<Rightarrow> log_info (Markitdown_failed pdf_path e) w1)"

text \<open>
  \<^verbatim>\<open>output_path = output_dir / relative_path.with_suffix(".md")\<close>, with
  \<^verbatim>\<open>relative_path = pdf_path.relative_to(source_dir)\<close>; either call may raise ValueError.
\<close>

definition output_path_of :: "path \<Rightarrow> path \<Rightarrow> path \<Rightarrow> path option" where
  "output_path_of pdf_path source_dir output_dir =
     (case relative_to pdf_path source_dir of
        None \<Rightarrow> None
      | Some relative_path \<Rightarrow>
          (case with_suffix relative_path (S ''.md'') of
             None \<Rightarrow> None
           | Some md \<Rightarrow> Some (output_dir @ md)))"

text \<open>
  The part of \<^verbatim>\<open>process_pdf\<close> both versions share, from
  \<^verbatim>\<open>output_path.parent.mkdir(parents=True, exist_ok=True)\<close> on: an exception of
  \<^verbatim>\<open>mkdir\<close> leaves the function (no converter is called), the converters' own
  failures do not.
\<close>

definition convert_with_fallback ::
  "version \<Rightarrow> bool \<Rightarrow> engines \<Rightarrow> path \<Rightarrow> path \<Rightarrow> path option \<Rightarrow> world
     \<Rightarrow> (error + unit) \<times> world" where
  "convert_with_fallback ver emb env pdf_path output_path local_image_folder w =
     (case mkdir_parents (butlast output_path) w of
        Inl e \<Rightarrow> (Inl e, w)
      | Inr w1 \<Rightarrow>
          (case convert_pdf_with_pymupdf ver emb env pdf_path output_path local_image_folder w1 of
             (success, w2) \<Rightarrow>
               if \<not> success then (Inr (), convert_pdf_with_markitdown ver env pdf_path output_path w2)
               else (Inr (), w2)))"

text \<open>\<^verbatim>\<open>PDFConverter.process_pdf\<close> (V3): the image folder is \<^verbatim>\<open>output_path.parent / "images"\<close>
  unless images are embedded.\<close>

definition process_pdf ::
  "PDFConverter \<Rightarrow> engines \<Rightarrow> path \<Rightarrow> path \<Rightarrow> path \<Rightarrow> world \<Rightarrow> (error + unit) \<times> world" where
  "process_pdf self env pdf_path source_dir output_dir w =
     (case output_path_of pdf_path source_dir output_dir of
        None \<Rightarrow> (Inl ValueError, w)
      | Some output_path \<Rightarrow>
          (let local_image_folder =
                 (if \<not> embed_images self then Some (butlast output_path @ [S ''images'']) else None)
           in convert_with_fallback V3 (embed_images self) env pdf_path output_path
                local_image_folder w))"

text \<open>
  \<^verbatim>\<open>process_pdf\<close> of V1, which reads the module's global \<^verbatim>\<open>source_dir\<close>: the image
  folder is \<^verbatim>\<open>output_path.parent / image_folder\<close> when images are not embedded and an
  image folder is given (a Path is always true). \<^verbatim>\<open>a / b\<close> is \<open>b\<close> itself when \<open>b\<close> is
  absolute; an absolute path is one whose first component is the root \<^verbatim>\<open>/\<close>, as in
  \<^verbatim>\<open>PurePath.parts\<close>.
\<close>

definition is_absolute :: "path \<Rightarrow> bool" where
  "is_absolute p = (case p of [] \<Rightarrow> False | c # cs \<Rightarrow> c = S ''/'')"

definition joinpath :: "path \<Rightarrow> path \<Rightarrow> path" where
  "joinpath a b = (if is_absolute b then b else a @ b)"

definition process_pdf_v1 ::
  "engines \<Rightarrow> path \<Rightarrow> path \<Rightarrow> path \<Rightarrow> path option \<Rightarrow> bool \<Rightarrow> world \<Rightarrow> (error + unit) \<times> world" where
  "process_pdf_v1 env source_dir pdf_path output_dir image_folder emb w =
     (case output_path_of pdf_path source_dir output_dir of
        None \<Rightarrow> (Inl ValueError, w)
      | Some output_path \<Rightarrow>
          (let local_image_folder =
                 (case image_folder of
                    Some folder \<Rightarrow> if \<not> emb then Some (joinpath (butlast output_path) folder) else None
                  | None \<Rightarrow> None)
           in convert_with_fallback V1 emb env pdf_path output_path local_image_folder w))"

section \<open>Discovery of the input files\<close>

text \<open>
  The source tree as the walk reads it: the entries of a directory in the order the
  operating system lists them, a directory with its own entries.
\<close>

datatype entry = File pystr | Dir pystr "entry list"

fun entry_name :: "entry \<Rightarrow> pystr" where
  "entry_name (File n) = n"
| "entry_name (Dir n sub) = n"

fun is_dir :: "entry \<Rightarrow> bool" where
  "is_dir (File n) = False"
| "is_dir (Dir n sub) = True"

text \<open>Every directory below \<open>top\<close> (and \<open>top\<close> itself, first) with its entries.\<close>

fun walk_entry :: "path \<Rightarrow> entry \<Rightarrow> (path \<times> entry list) list" where
  "walk_entry top_dir (File n) = []"
| "walk_entry top_dir (Dir n sub) = (top_dir @ [n], sub) # concat (map (walk_entry (top_dir @ [n])) sub)"

definition walk_dirs :: "path \<Rightarrow> entry list \<Rightarrow> (path \<times> entry list) list" where
  "walk_dirs top_dir es = (top_dir, es) # concat (map (walk_entry top_dir) es)"

text \<open>\<^verbatim>\<open>os.walk(top_dir)\<close>: for each directory the triple \<^verbatim>\<open>(root, dirs, files)\<close>.\<close>

definition os_walk :: "path \<Rightarrow> entry list \<Rightarrow> (path \<times> pystr list \<times> pystr list) list" where
  "os_walk top_dir es =
     map (\<lambda>(root, es). (root, map entry_name (filter is_dir es),
                              map entry_name (filter (\<lambda>e. \<not> is_dir e) es)))
       (walk_dirs top_dir es)"

text \<open>
  \<^verbatim>\<open>top.rglob(pattern)\<close>: every entry below \<open>top\<close>, file or directory, whose name
  matches the pattern. On a POSIX system the match is case-sensitive.
\<close>

definition rglob :: "(pystr \<Rightarrow> bool) \<Rightarrow> path \<Rightarrow> entry list \<Rightarrow> path list" where
  "rglob matches top_dir es =
     concat (map (\<lambda>(root, es). map (\<lambda>e. root @ [entry_name e])
                                   (filter (\<lambda>e. matches (entry_name e)) es))
               (walk_dirs top_dir es))"

text \<open>\<^verbatim>\<open>collect_pdf_files\<close> of \<^verbatim>\<open>parallel_pdf_converter.py\<close>: \<^verbatim>\<open>source_dir.rglob("*.pdf")\<close>.\<close>

definition collect_pdf_files :: "path \<Rightarrow> entry list \<Rightarrow> path list" where
  "collect_pdf_files source_dir tree = rglob (\<lambda>name. endswith name (S ''.pdf'')) source_dir tree"

text \<open>
  The paths \<^verbatim>\<open>PDFConverter.process_directory\<close> calls \<^verbatim>\<open>process_pdf\<close> on, in the order
  of its two loops: the files of the walk with
  \<^verbatim>\<open>file.lower().endswith(".pdf")\<close>.
\<close>

definition walk_pdf_paths :: "path \<Rightarrow> entry list \<Rightarrow> path list" where
  "walk_pdf_paths source_dir tree =
     concat (map (\<lambda>(root, ds, fs).
                    map (\<lambda>file. root @ [file])
                      (filter (\<lambda>file. endswith (lower file) (S ''.pdf'')) fs))
               (os_walk source_dir tree))"

text \<open>A loop whose body may raise: the first exception ends it.\<close>

fun for_each ::
  "('a \<Rightarrow> world \<Rightarrow> (error + unit) \<times> world) \<Rightarrow> 'a list \<Rightarrow> world \<Rightarrow> (error + unit) \<times> world" where
  "for_each body [] w = (Inr (), w)"
| "for_each body (x # xs) w =
     (case body x w of
        (Inl e, w1) \<Rightarrow> (Inl e, w1)
      | (Inr u, w1) \<Rightarrow> for_each body xs w1)"

definition process_directory ::
  "PDFConverter \<Rightarrow> engines \<Rightarrow> path \<Rightarrow> path \<Rightarrow> entry list \<Rightarrow> world \<Rightarrow> (error + unit) \<times> world" where
  "process_directory self env source_dir output_dir tree w =
     for_each (\<lambda>pdf_path. process_pdf self env pdf_path source_dir output_dir)
       (walk_pdf_paths source_dir tree) w"

section \<open>The parallel dispatcher\<close>

text \<open>
  \<^verbatim>\<open>process_single_pdf\<close>: the worker function. It answers False only when
  \<^verbatim>\<open>process_pdf\<close> raises.
\<close>

definition process_single_pdf :: "engines \<Rightarrow> path \<times> path \<times> path \<times> bool \<Rightarrow> world \<Rightarrow> bool \<times> world" where
  "process_single_pdf env pdf_info w =
     (case pdf_info of
        (pdf_path, source_dir, output_dir, emb) \<Rightarrow>
          (let converter = \<lparr>embed_images = emb, image_format = S ''png'', dpi = 300\<rparr>
           in case process_pdf converter env pdf_path source_dir output_dir w of
                (Inr u, w1) \<Rightarrow> (True, w1)
              | (Inl e, w1) \<Rightarrow> (False, log_info (Failed_to_process pdf_path e) w1)))"

text \<open>
  \<^verbatim>\<open>pool.map(worker, jobs)\<close>: the results in the order of the jobs. The workers are
  processes that share the filesystem and nothing else; the model runs the jobs one
  after the other in the order of the list, which is one of the schedules of the pool.
\<close>

fun pool_map :: "('a \<Rightarrow> world \<Rightarrow> bool \<times> world) \<Rightarrow> 'a list \<Rightarrow> world \<Rightarrow> bool list \<times> world" where
  "pool_map worker [] w = ([], w)"
| "pool_map worker (x # xs) w =
     (case worker x w of
        (r, w1) \<Rightarrow> (case pool_map worker xs w1 of (rs, w2) \<Rightarrow> (r # rs, w2)))"

text \<open>
  \<^verbatim>\<open>process_pdfs_parallel\<close>; \<open>cpu_count\<close> is \<^verbatim>\<open>mp.cpu_count()\<close>. A pool of fewer than
  one process raises ValueError. \<^verbatim>\<open>successful = sum(results)\<close> counts the True results.
\<close>

definition process_pdfs_parallel ::
  "engines \<Rightarrow> nat \<Rightarrow> path \<Rightarrow> path \<Rightarrow> bool \<Rightarrow> int option \<Rightarrow> entry list \<Rightarrow> world
     \<Rightarrow> (error + unit) \<times> world" where
  "process_pdfs_parallel env cpu_count source_dir output_dir emb num_workers tree w =
     (let pdf_files = collect_pdf_files source_dir tree;
          total_files = length pdf_files
      in if total_files = 0 then (Inr (), log_info No_PDF_files_found w)
         else
           (let w1 = log_info (Found_PDF_files total_files) w;
                workers = (case num_workers of
                             None \<Rightarrow> int (min cpu_count total_files)
                           | Some n \<Rightarrow> n);
                w2 = log_info (Using_worker_processes workers) w1;
                pdf_info_list = map (\<lambda>pdf_path. (pdf_path, source_dir, output_dir, emb)) pdf_files
            in if workers < 1 then (Inl ValueError, w2)
               else
                 (case pool_map (process_single_pdf env) pdf_info_list w2 of
                    (results, w3) \<Rightarrow>
                      (Inr (), log_info (Successfully_processed (length (filter id results)) total_files) w3))))"

section \<open>Notions the statements use\<close>

text \<open>The number a string of decimal digits denotes, and the test for a digit.\<close>

definition dec_value :: "pystr \<Rightarrow> nat" where
  "dec_value s = foldl (\<lambda>a c. 10 * a + (c - 48)) 0 s"

definition is_digit :: "nat \<Rightarrow> bool" where
  "is_digit c = (48 \<le> c \<and> c \<le> 57)"

text \<open>
  A document every call of the engine succeeds on: per page its text and its images.
  \<open>engine_page\<close> is the page as the engine presents it.
\<close>

type_synonym extracted_page = "pystr \<times> base_image list"

definition engine_page :: "extracted_page \<Rightarrow> page" where
  "engine_page p = \<lparr>get_text = Some (fst p), get_images = Some (map Some (snd p))\<rparr>"

text \<open>
  The names the converter gives the images of a document: pages counted from 1, the
  images of a page from 0, as the two \<^verbatim>\<open>enumerate\<close> calls of the source do.
\<close>

definition page_image_names :: "nat \<Rightarrow> base_image list \<Rightarrow> pystr list" where
  "page_image_names page_num imgs =
     map (\<lambda>(img_index, bi). image_filename page_num img_index (img_ext bi)) (enumerate 0 imgs)"

definition image_names :: "extracted_page list \<Rightarrow> pystr list" where
  "image_names doc =
     concat (map (\<lambda>(page_num, p). page_image_names page_num (snd p)) (enumerate 1 doc))"

text \<open>
  A well-formed filesystem: a path is never both a directory and a regular file, and
  whatever exists lies in directories. \<open>le_world\<close> orders the worlds by what exists
  in them.
\<close>

definition wf_world :: "world \<Rightarrow> bool" where
  "wf_world w =
     ((\<forall>p. p \<in> dirs w \<longrightarrow> files w p = None) \<and>
      (\<forall>p q. (p \<in> dirs w \<or> files w p \<noteq> None) \<longrightarrow> strict_prefix q p \<longrightarrow> q \<in> dirs w))"

definition le_world :: "world \<Rightarrow> world \<Rightarrow> bool" where
  "le_world s t = (dirs s \<subseteq> dirs t \<and> dom (files s) \<subseteq> dom (files t))"

text \<open>
  What the primary path writes, as functions of the extracted document: the fragment
  for one image, the fragments of a page (its header with its text, then its images),
  and the Markdown text, the fragments of all pages joined by newlines.
  \<open>folder_ref_name\<close> is the folder name the reference of an image starts with.
\<close>

definition folder_ref_name :: "version \<Rightarrow> path option \<Rightarrow> pystr" where
  "folder_ref_name ver image_folder =
     (case ver of
        V3 \<Rightarrow> S ''images''
      | V1 \<Rightarrow> (case image_folder of None \<Rightarrow> [] | Some folder \<Rightarrow> path_name folder))"

definition data_uri_fragment :: "base_image \<Rightarrow> pystr" where
  "data_uri_fragment bi =
     S ''![Image](data:image/'' @ img_ext bi @ S '';base64,'' @ b64encode (img_bytes bi) @ S '')'' @ [10]"

definition file_ref_fragment :: "pystr \<Rightarrow> pystr \<Rightarrow> pystr" where
  "file_ref_fragment folder_name filename = S ''![Image]('' @ folder_name @ S ''/'' @ filename @ S '')'' @ [10]"

definition image_fragment :: "bool \<Rightarrow> pystr \<Rightarrow> nat \<Rightarrow> nat \<Rightarrow> base_image \<Rightarrow> pystr" where
  "image_fragment emb folder_name page_num img_index bi =
     (if emb then data_uri_fragment bi
      else file_ref_fragment folder_name (image_filename page_num img_index (img_ext bi)))"

definition page_fragments :: "bool \<Rightarrow> pystr \<Rightarrow> nat \<Rightarrow> extracted_page \<Rightarrow> pystr list" where
  "page_fragments emb folder_name page_num p =
     page_header page_num (fst p)
       # map (\<lambda>(img_index, bi). image_fragment emb folder_name page_num img_index bi)
           (enumerate 0 (snd p))"

definition markdown_parts_of :: "bool \<Rightarrow> pystr \<Rightarrow> nat \<Rightarrow> extracted_page list \<Rightarrow> pystr list" where
  "markdown_parts_of emb folder_name first_page doc =
     concat (map (\<lambda>(page_num, p). page_fragments emb folder_name page_num p)
               (enumerate first_page doc))"

definition markdown_of :: "bool \<Rightarrow> pystr \<Rightarrow> extracted_page list \<Rightarrow> pystr" where
  "markdown_of emb folder_name doc = join [10] (markdown_parts_of emb folder_name 1 doc)"

text \<open>
  The image files of folder mode, in the order they are written: path and bytes.
  \<open>write_all\<close> performs a list of writes on the files of a world.
\<close>

definition page_image_writes :: "path \<Rightarrow> nat \<Rightarrow> nat \<Rightarrow> base_image list \<Rightarrow> (path \<times> byte list) list" where
  "page_image_writes folder page_num first_index imgs =
     map (\<lambda>(img_index, bi). (folder @ [image_filename page_num img_index (img_ext bi)], img_bytes bi))
       (enumerate first_index imgs)"

definition image_writes :: "path \<Rightarrow> nat \<Rightarrow> extracted_page list \<Rightarrow> (path \<times> byte list) list" where
  "image_writes folder first_page doc =
     concat (map (\<lambda>(page_num, p). page_image_writes folder page_num 0 (snd p))
               (enumerate first_page doc))"

definition write_all :: "(path \<times> byte list) list \<Rightarrow> (path \<rightharpoonup> byte list) \<Rightarrow> (path \<rightharpoonup> byte list)" where
  "write_all ws m = fold (\<lambda>(p, bs) m. m(p \<mapsto> bs)) ws m"


text \<open>
  Nothing is in the way of the image folder \<open>f\<close>: neither it nor an ancestor is a
  regular file, and no directory lies directly inside it.
\<close>

definition folder_free :: "path \<Rightarrow> world \<Rightarrow> bool" where
  "folder_free f w = ((\<forall>q \<in> set (prefixes f). files w q = None) \<and> (\<forall>name. f @ [name] \<notin> dirs w))"

text \<open>
  The relation between the two runs of the same job sequence, the second started in
  the world \<open>W\<close> the first ended in: when the first run is in the world \<open>s\<close> the second
  is in a world \<open>v\<close> with the directories and the file names of \<open>W\<close>, in which every
  file holds what it holds in \<open>s\<close> or what it holds in \<open>W\<close>.
\<close>

definition replay :: "world \<Rightarrow> world \<Rightarrow> world \<Rightarrow> bool" where
  "replay W s v =
     (dirs v = dirs W \<and> dom (files v) = dom (files W) \<and>
      (\<forall>p. files v p = files s p \<or> files v p = files W p))"

section \<open>Concrete inputs\<close>

text \<open>
  A source directory \<^verbatim>\<open>src\<close> and an output directory \<^verbatim>\<open>out\<close>, a world with nothing in
  it but the current directory, and one in which \<^verbatim>\<open>out/a.md\<close> is left from an earlier run.
\<close>

definition src_dir :: path where
  "src_dir = [S ''src'']"

definition out_dir :: path where
  "out_dir = [S ''out'']"

definition a_pdf :: path where
  "a_pdf = [S ''src'', S ''a.pdf'']"

definition a_md :: path where
  "a_md = [S ''out'', S ''a.md'']"

definition empty_world :: world where
  "empty_world = \<lparr>files = Map.empty, dirs = {[]}, logged = []\<rparr>"

definition stale_world :: world where
  "stale_world = \<lparr>files = [a_md \<mapsto> [1]], dirs = {[], out_dir}, logged = []\<rparr>"

definition folder_mode :: PDFConverter where
  "folder_mode = \<lparr>embed_images = False, image_format = S ''png'', dpi = 300\<rparr>"

definition embed_mode :: PDFConverter where
  "embed_mode = \<lparr>embed_images = True, image_format = S ''png'', dpi = 300\<rparr>"

text \<open>
  Engines: both fail on every file; the primary fails and the fallback answers
  \<^verbatim>\<open>hi\<close>; the primary extracts one page whose text is a lone surrogate and the fallback
  fails; the primary extracts a page with two images and a page with none.
\<close>

definition broken_engines :: engines where
  "broken_engines = \<lparr>fitz_open = (\<lambda>p. None), markitdown_convert = (\<lambda>p. None)\<rparr>"

definition fallback_engines :: engines where
  "fallback_engines = \<lparr>fitz_open = (\<lambda>p. None), markitdown_convert = (\<lambda>p. Some (S ''hi''))\<rparr>"

definition surrogate_engines :: engines where
  "surrogate_engines =
     \<lparr>fitz_open = (\<lambda>p. Some [\<lparr>get_text = Some [0xD800], get_images = Some []\<rparr>]),
      markitdown_convert = (\<lambda>p. None)\<rparr>"

definition png1 :: base_image where
  "png1 = \<lparr>img_bytes = [1, 2, 3], img_ext = S ''png''\<rparr>"

definition png2 :: base_image where
  "png2 = \<lparr>img_bytes = [4, 5], img_ext = S ''png''\<rparr>"

definition two_pages :: "extracted_page list" where
  "two_pages = [(S ''one'', [png1, png2]), (S ''two'', [])]"

definition image_engines :: engines where
  "image_engines = \<lparr>fitz_open = (\<lambda>p. Some (map engine_page two_pages)),
                      markitdown_convert = (\<lambda>p. None)\<rparr>"

text \<open>Source trees: a single file \<^verbatim>\<open>a.pdf\<close>; a single file \<^verbatim>\<open>X.PDF\<close>; a single
  directory \<^verbatim>\<open>d.pdf\<close>.\<close>

definition one_file :: "entry list" where
  "one_file = [File (S ''a.pdf'')]"

definition upper_case_file :: "entry list" where
  "upper_case_file = [File (S ''X.PDF'')]"

definition pdf_named_directory :: "entry list" where
  "pdf_named_directory = [Dir (S ''d.pdf'') []]"

text \<open>A world in which the output directory exists, and the image folder of \<^verbatim>\<open>out/a.md\<close>.\<close>

definition out_world :: world where
  "out_world = \<lparr>files = Map.empty, dirs = {[], out_dir}, logged = []\<rparr>"

definition images_dir :: path where
  "images_dir = [S ''out'', S ''images'']"


text \<open>The image folders V1 is given with \<^verbatim>\<open>--image-folder a/b\<close> and with
  \<^verbatim>\<open>--image-folder pics\<close>.\<close>

definition nested_folder :: path where
  "nested_folder = [S ''a'', S ''b'']"

definition pics_folder :: path where
  "pics_folder = [S ''pics'']"

section \<open>Decimal formatting and the names of the images\<close>

lemma digits_is_digit: "list_all is_digit (digits n)"
proof (induction n rule: digits.induct)
  case (1 n)
  show ?case
  proof (cases "n < 10")
    case True
    then show ?thesis by (simp add: digits.simps[of n] is_digit_def)
  next
    case False
    have "n mod 10 < 10" by simp
    then have "is_digit (48 + n mod 10)" unfolding is_digit_def by linarith
    with False 1 show ?thesis by (simp add: digits.simps[of n])
  qed
qed

lemma dec_value_snoc: "dec_value (s @ [c]) = 10 * dec_value s + (c - 48)"
  by (simp add: dec_value_def)

lemma dec_value_digits: "dec_value (digits n) = n"
proof (induction n rule: digits.induct)
  case (1 n)
  show ?case
  proof (cases "n < 10")
    case True
    then show ?thesis by (simp add: digits.simps[of n] dec_value_def)
  next
    case False
    with 1 show ?thesis by (simp add: digits.simps[of n] dec_value_snoc)
  qed
qed

lemma dec_value_zeros: "dec_value (replicate k 48 @ s) = dec_value s"
proof -
  have "foldl (\<lambda>a c. 10 * a + (c - 48)) 0 (replicate k (48::nat)) = 0"
    by (induction k) simp_all
  then show ?thesis by (simp add: dec_value_def)
qed

lemma dec_value_zero_pad: "dec_value (zero_pad width n) = n"
  by (simp add: zero_pad_def dec_value_zeros dec_value_digits)

lemma zero_pad_is_digit: "list_all is_digit (zero_pad width n)"
  using digits_is_digit[of n] by (auto simp add: zero_pad_def is_digit_def list_all_iff)

lemma zero_pad_inj: "zero_pad width n = zero_pad width m \<Longrightarrow> n = m"
  by (metis dec_value_zero_pad)

lemma digit_run_unique:
  assumes "list_all is_digit a" "list_all is_digit b" "\<not> is_digit sep"
    and "a @ sep # r = b @ sep # r'"
  shows "a = b \<and> r = r'"
proof -
  have "takeWhile is_digit (a @ sep # r) = a" "takeWhile is_digit (b @ sep # r') = b"
    using assms(1-3) by (simp_all add: takeWhile_append2 list_all_iff)
  with assms(4) have "a = b" by simp
  with assms(4) show ?thesis by simp
qed

lemma image_filename_eq_iff:
  "image_filename p i e = image_filename p' i' e' \<longleftrightarrow> p = p' \<and> i = i' \<and> e = e'"
proof
  assume eq: "image_filename p i e = image_filename p' i' e'"
  then have "zero_pad 3 p @ 95 # (zero_pad 2 (i + 1) @ 46 # e)
           = zero_pad 3 p' @ 95 # (zero_pad 2 (i' + 1) @ 46 # e')"
    by (simp add: image_filename_def S_def)
  from digit_run_unique[OF zero_pad_is_digit zero_pad_is_digit _ this]
  have a: "zero_pad 3 p = zero_pad 3 p'" and b: "zero_pad 2 (i + 1) @ 46 # e = zero_pad 2 (i' + 1) @ 46 # e'"
    by (simp_all add: is_digit_def)
  from digit_run_unique[OF zero_pad_is_digit zero_pad_is_digit _ b]
  have c: "zero_pad 2 (i + 1) = zero_pad 2 (i' + 1)" and d: "e = e'"
    by (simp_all add: is_digit_def)
  from a c d show "p = p' \<and> i = i' \<and> e = e'"
    using zero_pad_inj by fastforce
qed simp

lemma page_image_names_distinct: "distinct (page_image_names n imgs)"
proof -
  have "inj_on (\<lambda>(img_index, bi). image_filename n img_index (img_ext bi)) (set (enumerate 0 imgs))"
    by (auto simp add: inj_on_def image_filename_eq_iff in_set_enumerate_eq)
  then show ?thesis
    by (simp add: page_image_names_def distinct_map)
qed

lemma names_from_page:
  "x \<in> set (concat (map (\<lambda>(page_num, p). page_image_names page_num (snd p)) (enumerate k doc)))
   \<Longrightarrow> \<exists>n i e. k \<le> n \<and> x = image_filename n i e"
  by (fastforce simp add: page_image_names_def in_set_enumerate_eq)

lemma names_from_distinct:
  "distinct (concat (map (\<lambda>(page_num, p). page_image_names page_num (snd p)) (enumerate k doc)))"
proof (induction doc arbitrary: k)
  case Nil
  show ?case by simp
next
  case (Cons p doc)
  have "set (page_image_names k (snd p))
        \<inter> set (concat (map (\<lambda>(page_num, p). page_image_names page_num (snd p)) (enumerate (Suc k) doc))) = {}"
  proof (rule ccontr)
    assume "\<not> ?thesis"
    then obtain x where x: "x \<in> set (page_image_names k (snd p))"
      and y: "x \<in> set (concat (map (\<lambda>(page_num, p). page_image_names page_num (snd p)) (enumerate (Suc k) doc)))"
      by blast
    from names_from_page[OF y] obtain n i e where n: "Suc k \<le> n" "x = image_filename n i e" by blast
    from x obtain i' e' where "x = image_filename k i' e'"
      by (auto simp add: page_image_names_def)
    with n show False by (simp add: image_filename_eq_iff)
  qed
  with Cons[of "Suc k"] page_image_names_distinct[of k "snd p"] show ?case
    by simp
qed

lemma image_names_distinct: "distinct (image_names doc)"
  unfolding image_names_def by (rule names_from_distinct)

lemma image_names_example:
  "image_names [(t1, [b1, b2]), (t2, [])]
       = [S ''image_001_01.'' @ img_ext b1, S ''image_001_02.'' @ img_ext b2]"
  by (simp add: image_names_def page_image_names_def image_filename_def zero_pad_def enumerate_eq_zip
        digits.simps S_def upt_rec numeral_2_eq_2 numeral_3_eq_3)

section \<open>The filesystem operations\<close>

lemma log_info_simps [simp]:
  "files (log_info r w) = files w" "dirs (log_info r w) = dirs w"
  "logged (log_info r w) = logged w @ [r]"
  by (simp_all add: log_info_def)

lemma write_bytes_simps [simp]:
  "files (write_bytes p bs w) = (files w)(p \<mapsto> bs)" "dirs (write_bytes p bs w) = dirs w"
  "logged (write_bytes p bs w) = logged w"
  by (simp_all add: write_bytes_def)

lemma mkdir_parents_Inr:
  "mkdir_parents p w = Inr w' \<longleftrightarrow>
     w' = w\<lparr>dirs := dirs w \<union> set (prefixes p)\<rparr> \<and> (\<forall>q \<in> set (prefixes p). files w q = None)"
  by (auto simp add: mkdir_parents_def list_ex_iff split: if_splits)

lemma mkdir_parents_Inl:
  "mkdir_parents p w = Inl e \<Longrightarrow> \<exists>q \<in> set (prefixes p). files w q \<noteq> None"
  by (auto simp add: mkdir_parents_def list_ex_iff split: if_splits)

lemma mkdir_parents_error:
  "mkdir_parents p w = Inl e \<Longrightarrow> e = NotADirectoryError \<or> e = FileExistsError"
  by (auto simp add: mkdir_parents_def split: if_splits)

lemma open_w_Inr:
  "open_w p w = Inr w' \<longleftrightarrow>
     w' = w\<lparr>files := (files w)(p \<mapsto> [])\<rparr> \<and> p \<notin> dirs w \<and> butlast p \<in> dirs w"
  by (auto simp add: open_w_def split: if_splits)

lemma open_w_Inl:
  "open_w p w = Inl e \<longleftrightarrow>
     (p \<in> dirs w \<and> e = IsADirectoryError) \<or> (p \<notin> dirs w \<and> butlast p \<notin> dirs w \<and> e = FileNotFoundError)"
  by (auto simp add: open_w_def split: if_splits)

lemma write_text_Inr:
  "write_text p s w = Inr w' \<longleftrightarrow> (\<exists>bs. utf8_encode s = Some bs \<and> w' = write_bytes p bs w)"
  by (auto simp add: write_text_def split: option.splits)

lemma write_text_Inl:
  "write_text p s w = Inl e \<longleftrightarrow> utf8_encode s = None \<and> e = UnicodeEncodeError"
  by (auto simp add: write_text_def split: option.splits)

lemma place_image_embedded:
  "place_image ver True image_folder n i img w = (r, w') \<Longrightarrow> w' = w"
  by (auto simp add: place_image_def split: option.splits)

lemma strict_prefix_butlast: "strict_prefix q p \<Longrightarrow> prefix q (butlast p)"
  by (auto simp add: strict_prefix_def prefix_def butlast_append)

lemma wf_world_log_info [simp]: "wf_world (log_info r w) = wf_world w"
  by (simp add: wf_world_def)

lemma wf_worldD1: "wf_world w \<Longrightarrow> p \<in> dirs w \<Longrightarrow> files w p = None"
  unfolding wf_world_def by blast

lemma wf_worldD2: "wf_world w \<Longrightarrow> p \<in> dirs w \<or> files w p \<noteq> None \<Longrightarrow> strict_prefix q p \<Longrightarrow> q \<in> dirs w"
  unfolding wf_world_def by blast

lemma wf_worldI:
  "(\<And>p. p \<in> dirs w \<Longrightarrow> files w p = None) \<Longrightarrow>
   (\<And>p q. p \<in> dirs w \<or> files w p \<noteq> None \<Longrightarrow> strict_prefix q p \<Longrightarrow> q \<in> dirs w) \<Longrightarrow> wf_world w"
  unfolding wf_world_def by blast

lemma wf_world_mkdir:
  assumes wf: "wf_world w" and mk: "mkdir_parents p w = Inr w'"
  shows "wf_world w'"
proof -
  from mk have fs: "files w' = files w" and ds: "dirs w' = dirs w \<union> set (prefixes p)"
    and free: "\<And>q. prefix q p \<Longrightarrow> files w q = None"
    by (simp_all add: mkdir_parents_Inr in_set_prefixes)
  show ?thesis
  proof (rule wf_worldI)
    fix q assume "q \<in> dirs w'"
    then have "q \<in> dirs w \<or> prefix q p" by (simp add: ds in_set_prefixes)
    then show "files w' q = None" using wf_worldD1[OF wf] free fs by metis
  next
    fix a q assume a: "a \<in> dirs w' \<or> files w' a \<noteq> None" and q: "strict_prefix q a"
    from a have "(a \<in> dirs w \<or> files w a \<noteq> None) \<or> prefix a p"
      by (simp add: ds fs in_set_prefixes) blast
    then show "q \<in> dirs w'"
    proof
      assume "a \<in> dirs w \<or> files w a \<noteq> None"
      from wf_worldD2[OF wf this q] show ?thesis by (simp add: ds)
    next
      assume "prefix a p"
      moreover from q have "prefix q a" by (simp add: strict_prefix_def)
      ultimately have "prefix q p" by (rule prefix_order.order_trans[rotated])
      then show ?thesis by (simp add: ds in_set_prefixes)
    qed
  qed
qed


lemma wf_world_open_w:
  assumes wf: "wf_world w" and op: "open_w p w = Inr w'"
  shows "wf_world w'"
proof -
  from op have fs: "files w' = (files w)(p \<mapsto> [])" and ds: "dirs w' = dirs w"
    and p: "p \<notin> dirs w" "butlast p \<in> dirs w"
    by (simp_all add: open_w_Inr)
  show ?thesis
  proof (rule wf_worldI)
    fix q assume "q \<in> dirs w'"
    then have "q \<in> dirs w" by (simp add: ds)
    then have "files w q = None" "q \<noteq> p" using wf_worldD1[OF wf] p(1) by blast+
    then show "files w' q = None" by (simp add: fs)
  next
    fix a q assume a: "a \<in> dirs w' \<or> files w' a \<noteq> None" and q: "strict_prefix q a"
    have "(a \<in> dirs w \<or> files w a \<noteq> None) \<or> a = p"
    proof (cases "a = p")
      case False
      with a show ?thesis by (simp add: ds fs)
    qed simp
    then show "q \<in> dirs w'"
    proof
      assume "a \<in> dirs w \<or> files w a \<noteq> None"
      from wf_worldD2[OF wf this q] show ?thesis by (simp add: ds)
    next
      assume "a = p"
      with q have "prefix q (butlast p)" by (simp add: strict_prefix_butlast)
      then have "q = butlast p \<or> strict_prefix q (butlast p)"
        by (auto simp add: strict_prefix_def)
      then have "q \<in> dirs w"
      proof
        assume "q = butlast p" with p(2) show ?thesis by simp
      next
        assume "strict_prefix q (butlast p)"
        with wf_worldD2[OF wf _ this] p(2) show ?thesis by blast
      qed
      then show ?thesis by (simp add: ds)
    qed
  qed
qed

lemma wf_world_write_bytes:
  assumes wf: "wf_world w" and ex: "files w p \<noteq> None"
  shows "wf_world (write_bytes p bs w)"
proof (rule wf_worldI)
  fix q assume "q \<in> dirs (write_bytes p bs w)"
  then have "q \<in> dirs w" by simp
  then have "files w q = None" using wf_worldD1[OF wf] by blast
  with ex have "q \<noteq> p" by auto
  with \<open>files w q = None\<close> show "files (write_bytes p bs w) q = None" by simp
next
  fix a q assume a: "a \<in> dirs (write_bytes p bs w) \<or> files (write_bytes p bs w) a \<noteq> None"
    and q: "strict_prefix q a"
  have "a \<in> dirs w \<or> files w a \<noteq> None"
  proof (cases "a = p")
    case True with ex show ?thesis by simp
  next
    case False with a show ?thesis by simp
  qed
  from wf_worldD2[OF wf this q] show "q \<in> dirs (write_bytes p bs w)" by simp
qed

lemma le_world_refl [simp]: "le_world w w"
  by (simp add: le_world_def)

lemma le_world_trans: "le_world a b \<Longrightarrow> le_world b c \<Longrightarrow> le_world a c"
  unfolding le_world_def by (meson subset_trans)

lemma le_world_log_info [simp]: "le_world w (log_info r w)" "le_world (log_info r w) u = le_world w u"
  by (simp_all add: le_world_def)

lemma le_world_mkdir: "mkdir_parents p w = Inr w' \<Longrightarrow> le_world w w'"
  by (auto simp add: mkdir_parents_Inr le_world_def)

lemma le_world_open_w: "open_w p w = Inr w' \<Longrightarrow> le_world w w'"
  by (auto simp add: open_w_Inr le_world_def)

lemma le_world_write_bytes: "le_world w (write_bytes p bs w)"
  by (auto simp add: le_world_def)

lemma utf8_encode_None: "utf8_encode s = None \<longleftrightarrow> list_ex is_surrogate s"
  by (simp add: utf8_encode_def)

section \<open>The primary conversion\<close>

text \<open>One image.\<close>

lemma place_image_cases:
  assumes "place_image ver emb image_folder n i img w = (r, w')"
  obtains
    (no_image) "img = None" "r = Inl ExtractionFailed" "w' = w"
  | (embedded) bi where "img = Some bi" "emb" "r = Inr (data_uri_fragment bi)" "w' = w"
  | (no_folder) bi where "img = Some bi" "\<not> emb" "image_folder = None" "r = Inl AttributeError" "w' = w"
  | (mkdir_failed) bi f e where "img = Some bi" "\<not> emb" "image_folder = Some f"
      "mkdir_parents f w = Inl e" "r = Inl e" "w' = w"
  | (open_failed) bi f w1 e where "img = Some bi" "\<not> emb" "image_folder = Some f"
      "mkdir_parents f w = Inr w1" "open_w (f @ [image_filename n i (img_ext bi)]) w1 = Inl e"
      "r = Inl e" "w' = w1"
  | (written) bi f w1 w2 where "img = Some bi" "\<not> emb" "image_folder = Some f"
      "mkdir_parents f w = Inr w1" "open_w (f @ [image_filename n i (img_ext bi)]) w1 = Inr w2"
      "r = Inr (file_ref_fragment (folder_ref_name ver image_folder) (image_filename n i (img_ext bi)))"
      "w' = write_bytes (f @ [image_filename n i (img_ext bi)]) (img_bytes bi) w2"
proof (cases img)
  case None
  with assms show ?thesis by (intro no_image) (simp_all add: place_image_def)
next
  case (Some bi)
  note img = this
  show ?thesis
  proof (cases emb)
    case True
    with assms img show ?thesis
      by (intro embedded[of bi]) (simp_all add: place_image_def data_uri_fragment_def)
  next
    case False
    note emb = this
    show ?thesis
    proof (cases image_folder)
      case None
      with assms img emb show ?thesis
        by (intro no_folder[of bi]) (simp_all add: place_image_def)
    next
      case (Some f)
      note f = this
      show ?thesis
      proof (cases "mkdir_parents f w")
        case (Inl e)
        with assms img emb f show ?thesis
          by (intro mkdir_failed[of bi f e]) (simp_all add: place_image_def)
      next
        case (Inr w1)
        note w1 = this
        show ?thesis
        proof (cases "open_w (f @ [image_filename n i (img_ext bi)]) w1")
          case (Inl e)
          with assms img emb f w1 show ?thesis
            by (intro open_failed[of bi f w1 e]) (simp_all add: place_image_def)
        next
          case (Inr w2)
          with assms img emb f w1 show ?thesis
            by (intro written[of bi f w1 w2])
               (auto simp add: place_image_def Let_def file_ref_fragment_def folder_ref_name_def
                     split: version.splits)
        qed
      qed
    qed
  qed
qed

lemma place_image_logged:
  "place_image ver emb image_folder n i img w = (r, w') \<Longrightarrow> logged w' = logged w"
  by (erule place_image_cases) (auto simp add: mkdir_parents_Inr open_w_Inr)

lemma place_image_le:
  assumes "place_image ver emb image_folder n i img w = (r, w')"
  shows "le_world w w'"
  using assms
proof (cases rule: place_image_cases)
  case (open_failed bi f w1 e)
  then show ?thesis by (simp add: le_world_mkdir)
next
  case (written bi f w1 w2)
  then show ?thesis
    by (metis le_world_mkdir le_world_open_w le_world_write_bytes le_world_trans)
qed simp_all

lemma place_image_wf:
  assumes "place_image ver emb image_folder n i img w = (r, w')" "wf_world w"
  shows "wf_world w'"
  using assms(1)
proof (cases rule: place_image_cases)
  case (open_failed bi f w1 e)
  with assms(2) show ?thesis by (simp add: wf_world_mkdir)
next
  case (written bi f w1 w2)
  from written(4) assms(2) have "wf_world w1" by (simp add: wf_world_mkdir)
  with written(5) have "wf_world w2" by (simp add: wf_world_open_w)
  moreover from written(5) have "files w2 (f @ [image_filename n i (img_ext bi)]) \<noteq> None"
    by (simp add: open_w_Inr)
  ultimately show ?thesis using written(7) by (simp add: wf_world_write_bytes)
qed (simp_all add: assms(2))

lemma place_image_frame:
  assumes "place_image ver emb image_folder n i img w = (r, w')"
    and "\<And>f. image_folder = Some f \<Longrightarrow> butlast p \<noteq> f"
  shows "files w' p = files w p"
  using assms(1)
proof (cases rule: place_image_cases)
  case (open_failed bi f w1 e)
  then show ?thesis by (simp add: mkdir_parents_Inr)
next
  case (written bi f w1 w2)
  from assms(2)[OF written(3)] have "p \<noteq> f @ [image_filename n i (img_ext bi)]" by auto
  with written show ?thesis by (simp add: mkdir_parents_Inr open_w_Inr)
qed simp_all

lemma place_image_Inr:
  assumes "place_image ver emb image_folder n i img w = (Inr fragment, w')"
  shows "\<exists>bi. img = Some bi \<and> fragment = image_fragment emb (folder_ref_name ver image_folder) n i bi"
  using assms
  by (cases rule: place_image_cases) (simp_all add: image_fragment_def)

text \<open>The images of a page.\<close>

lemma images_loop_embedded:
  "images_loop ver True image_folder n i imgs acc w = (r, w') \<Longrightarrow> w' = w"
proof (induction imgs arbitrary: i acc w)
  case Nil
  then show ?case by simp
next
  case (Cons img imgs)
  obtain parts c where acc: "acc = (parts, c)" by (cases acc)
  obtain r1 w1 where p: "place_image ver True image_folder n i img w = (r1, w1)"
    by (cases "place_image ver True image_folder n i img w")
  then have "w1 = w" by (rule place_image_embedded)
  with Cons p acc show ?case by (cases r1) auto
qed

lemma images_loop_effect:
  assumes "images_loop ver emb image_folder n i imgs acc w = (r, w')"
  shows "logged w' = logged w \<and> le_world w w' \<and> (wf_world w \<longrightarrow> wf_world w')
       \<and> ((\<forall>f. image_folder = Some f \<longrightarrow> butlast p \<noteq> f) \<longrightarrow> files w' p = files w p)"
  using assms
proof (induction imgs arbitrary: i acc w)
  case Nil
  then show ?case by simp
next
  case (Cons img imgs)
  obtain parts c where acc: "acc = (parts, c)" by (cases acc)
  obtain r1 w1 where p: "place_image ver emb image_folder n i img w = (r1, w1)"
    by (cases "place_image ver emb image_folder n i img w")
  note one = place_image_logged[OF p] place_image_le[OF p] place_image_wf[OF p]
    place_image_frame[OF p, of p]
  show ?case
  proof (cases r1)
    case (Inl e)
    with Cons.prems p acc have "w' = w1" by simp
    with one show ?thesis by simp
  next
    case (Inr fragment)
    with Cons.prems p acc
    have "images_loop ver emb image_folder n (Suc i) imgs (parts @ [fragment], Suc c) w1 = (r, w')"
      by simp
    from Cons.IH[OF this] one show ?thesis
      by (auto intro: le_world_trans)
  qed
qed

lemma enumerate_Cons': "enumerate i (x # xs) = (i, x) # enumerate (Suc i) xs"
  by simp

lemma images_loop_Inr:
  assumes "images_loop ver emb image_folder n i imgs (parts, c) w = (Inr (parts', c'), w')"
  shows "\<exists>bis. imgs = map Some bis
           \<and> parts' = parts @ map (\<lambda>(img_index, bi). image_fragment emb (folder_ref_name ver image_folder) n img_index bi)
                                (enumerate i bis)
           \<and> c' = c + length bis"
  using assms
proof (induction imgs arbitrary: i parts c w)
  case Nil
  then show ?case by simp
next
  case (Cons img imgs)
  obtain r1 w1 where p: "place_image ver emb image_folder n i img w = (r1, w1)"
    by (cases "place_image ver emb image_folder n i img w")
  show ?case
  proof (cases r1)
    case (Inl e)
    with Cons.prems p show ?thesis by simp
  next
    case (Inr fragment)
    with Cons.prems p
    have rest: "images_loop ver emb image_folder n (Suc i) imgs (parts @ [fragment], Suc c) w1 = (Inr (parts', c'), w')"
      by simp
    from p Inr obtain bi where bi: "img = Some bi"
      "fragment = image_fragment emb (folder_ref_name ver image_folder) n i bi"
      using place_image_Inr by blast
    from Cons.IH[OF rest] obtain bis where bis: "imgs = map Some bis"
      "parts' = (parts @ [fragment]) @ map (\<lambda>(img_index, bi). image_fragment emb (folder_ref_name ver image_folder) n img_index bi)
                                (enumerate (Suc i) bis)"
      "c' = Suc c + length bis" by blast
    show ?thesis
      by (rule exI[of _ "bi # bis"]) (simp add: bi bis)
  qed
qed

text \<open>The pages.\<close>

lemma pages_loop_cases:
  assumes "pages_loop ver emb image_folder n (page # pages) (parts, c) w = (r, w')"
  obtains
    (no_text) "get_text page = None" "r = Inl ExtractionFailed" "w' = w"
  | (no_images) ptext where "get_text page = Some ptext" "get_images page = None"
      "r = Inl ExtractionFailed" "w' = w"
  | (image_failed) ptext images e where "get_text page = Some ptext" "get_images page = Some images"
      "images_loop ver emb image_folder n 0 images (parts @ [page_header n ptext], c) w = (Inl e, w')"
      "r = Inl e"
  | (next_page) ptext images acc1 w1 where "get_text page = Some ptext" "get_images page = Some images"
      "images_loop ver emb image_folder n 0 images (parts @ [page_header n ptext], c) w = (Inr acc1, w1)"
      "pages_loop ver emb image_folder (Suc n) pages acc1 w1 = (r, w')"
proof (cases "get_text page")
  case None
  with assms show ?thesis by (intro no_text) simp_all
next
  case (Some ptext)
  note t = this
  show ?thesis
  proof (cases "get_images page")
    case None
    with assms t show ?thesis by (intro no_images[of ptext]) simp_all
  next
    case (Some images)
    note im = this
    obtain r1 w1 where l: "images_loop ver emb image_folder n 0 images (parts @ [page_header n ptext], c) w = (r1, w1)"
      by (cases "images_loop ver emb image_folder n 0 images (parts @ [page_header n ptext], c) w")
    show ?thesis
    proof (cases r1)
      case (Inl e)
      with assms t im l show ?thesis by (intro image_failed[of ptext images e]) simp_all
    next
      case (Inr acc1)
      with assms t im l show ?thesis by (intro next_page[of ptext images acc1 w1]) simp_all
    qed
  qed
qed

lemma pages_loop_embedded:
  "pages_loop ver True image_folder n pages acc w = (r, w') \<Longrightarrow> w' = w"
proof (induction pages arbitrary: n acc w)
  case Nil
  then show ?case by simp
next
  case (Cons page pages)
  obtain parts c where acc: "acc = (parts, c)" by (cases acc)
  from Cons.prems[unfolded acc] show ?case
  proof (cases rule: pages_loop_cases)
    case (image_failed ptext images e)
    then show ?thesis using images_loop_embedded by blast
  next
    case (next_page ptext images acc1 w1)
    from next_page(3) have "w1 = w" by (rule images_loop_embedded)
    with Cons.IH next_page(4) show ?thesis by blast
  qed simp_all
qed

lemma pages_loop_effect:
  assumes "pages_loop ver emb image_folder n pages acc w = (r, w')"
  shows "logged w' = logged w \<and> le_world w w' \<and> (wf_world w \<longrightarrow> wf_world w')
       \<and> ((\<forall>f. image_folder = Some f \<longrightarrow> butlast p \<noteq> f) \<longrightarrow> files w' p = files w p)"
  using assms
proof (induction pages arbitrary: n acc w)
  case Nil
  then show ?case by simp
next
  case (Cons page pages)
  obtain parts c where acc: "acc = (parts, c)" by (cases acc)
  from Cons.prems[unfolded acc] show ?case
  proof (cases rule: pages_loop_cases)
    case (image_failed ptext images e)
    from images_loop_effect[OF image_failed(3)] show ?thesis .
  next
    case (next_page ptext images acc1 w1)
    from images_loop_effect[OF next_page(3), of p] Cons.IH[OF next_page(4)] show ?thesis
      by (auto intro: le_world_trans)
  qed simp_all
qed

lemma pages_loop_Inr:
  assumes "pages_loop ver emb image_folder n pages (parts, c) w = (Inr (parts', c'), w')"
  shows "\<exists>doc. pages = map engine_page doc
           \<and> parts' = parts @ markdown_parts_of emb (folder_ref_name ver image_folder) n doc
           \<and> c' = c + length (concat (map snd doc))"
  using assms
proof (induction pages arbitrary: n parts c w)
  case Nil
  then show ?case by (simp add: markdown_parts_of_def)
next
  case (Cons page pages)
  from Cons.prems show ?case
  proof (cases rule: pages_loop_cases)
    case (next_page ptext images acc1 w1)
    obtain parts1 c1 where acc1: "acc1 = (parts1, c1)" by (cases acc1)
    from images_loop_Inr[OF next_page(3)[unfolded acc1]] obtain bis where bis:
      "images = map Some bis"
      "parts1 = (parts @ [page_header n ptext]) @ map (\<lambda>(img_index, bi). image_fragment emb (folder_ref_name ver image_folder) n img_index bi) (enumerate 0 bis)"
      "c1 = c + length bis" by blast
    from Cons.IH[OF next_page(4)[unfolded acc1]] obtain doc where doc:
      "pages = map engine_page doc"
      "parts' = parts1 @ markdown_parts_of emb (folder_ref_name ver image_folder) (Suc n) doc"
      "c' = c1 + length (concat (map snd doc))" by blast
    have pg: "page = engine_page (ptext, bis)"
      using next_page(1,2) bis(1) by (simp add: engine_page_def)
    show ?thesis
      by (rule exI[of _ "(ptext, bis) # doc"])
         (simp add: pg doc bis markdown_parts_of_def page_fragments_def)
  qed simp_all
qed

text \<open>The \<^verbatim>\<open>try\<close> block of the primary conversion.\<close>

lemma pymupdf_try_cases:
  assumes "pymupdf_try ver emb env pdf_path output_path image_folder w = (r, w')"
  obtains
    (not_opened) "fitz_open env pdf_path = None" "r = Inl ExtractionFailed"
      "w' = log_info (Converting_with_PyMuPDF pdf_path output_path) w"
  | (page_failed) doc e where "fitz_open env pdf_path = Some doc"
      "pages_loop ver emb image_folder 1 doc ([], 0) (log_info (Converting_with_PyMuPDF pdf_path output_path) w) = (Inl e, w')"
      "r = Inl e"
  | (output_not_opened) doc parts c w1 e where "fitz_open env pdf_path = Some doc"
      "pages_loop ver emb image_folder 1 doc ([], 0) (log_info (Converting_with_PyMuPDF pdf_path output_path) w) = (Inr (parts, c), w1)"
      "open_w output_path w1 = Inl e" "r = Inl e" "w' = w1"
  | (not_encoded) doc parts c w1 w2 where "fitz_open env pdf_path = Some doc"
      "pages_loop ver emb image_folder 1 doc ([], 0) (log_info (Converting_with_PyMuPDF pdf_path output_path) w) = (Inr (parts, c), w1)"
      "open_w output_path w1 = Inr w2" "utf8_encode (join [10] parts) = None"
      "r = Inl UnicodeEncodeError" "w' = w2"
  | (converted) doc parts c w1 w2 bs where "fitz_open env pdf_path = Some doc"
      "pages_loop ver emb image_folder 1 doc ([], 0) (log_info (Converting_with_PyMuPDF pdf_path output_path) w) = (Inr (parts, c), w1)"
      "open_w output_path w1 = Inr w2" "utf8_encode (join [10] parts) = Some bs"
      "r = Inr ()" "w' = log_info (PyMuPDF_converted (path_name pdf_path) c) (write_bytes output_path bs w2)"
proof (cases "fitz_open env pdf_path")
  case None
  with assms show ?thesis by (intro not_opened) (simp_all add: pymupdf_try_def)
next
  case (Some doc)
  note doc = this
  obtain r1 w1 where l: "pages_loop ver emb image_folder 1 doc ([], 0) (log_info (Converting_with_PyMuPDF pdf_path output_path) w) = (r1, w1)"
    by (cases "pages_loop ver emb image_folder 1 doc ([], 0) (log_info (Converting_with_PyMuPDF pdf_path output_path) w)")
  show ?thesis
  proof (cases r1)
    case (Inl e)
    with assms doc l show ?thesis by (intro page_failed[of doc e]) (simp_all add: pymupdf_try_def)
  next
    case (Inr acc)
    obtain parts c where acc: "acc = (parts, c)" by (cases acc)
    note l' = l[unfolded Inr acc]
    show ?thesis
    proof (cases "open_w output_path w1")
      case (Inl e)
      with assms doc l' show ?thesis
        by (intro output_not_opened[of doc parts c w1 e]) (simp_all add: pymupdf_try_def)
    next
      case (Inr w2)
      note w2 = this
      show ?thesis
      proof (cases "utf8_encode (join [10] parts)")
        case None
        with assms doc l' w2 show ?thesis
          by (intro not_encoded[of doc parts c w1 w2]) (simp_all add: pymupdf_try_def write_text_def)
      next
        case (Some bs)
        with assms doc l' w2 show ?thesis
          by (intro converted[of doc parts c w1 w2 bs]) (simp_all add: pymupdf_try_def write_text_def)
      qed
    qed
  qed
qed

lemma pymupdf_try_logged:
  assumes "pymupdf_try ver emb env pdf_path output_path image_folder w = (r, w')"
  shows "\<exists>c. logged w' = logged w @ Converting_with_PyMuPDF pdf_path output_path
                   # (case r of Inl e \<Rightarrow> [] | Inr u \<Rightarrow> [PyMuPDF_converted (path_name pdf_path) c])"
  using assms
proof (cases rule: pymupdf_try_cases)
  case (page_failed doc e)
  with pages_loop_effect[OF page_failed(2)] show ?thesis by simp
next
  case (output_not_opened doc parts c w1 e)
  with pages_loop_effect[OF output_not_opened(2)] show ?thesis by simp
next
  case (not_encoded doc parts c w1 w2)
  with pages_loop_effect[OF not_encoded(2)] show ?thesis by (simp add: open_w_Inr)
next
  case (converted doc parts c w1 w2 bs)
  with pages_loop_effect[OF converted(2)] show ?thesis by (auto simp add: open_w_Inr)
qed simp

lemma pymupdf_try_le:
  assumes "pymupdf_try ver emb env pdf_path output_path image_folder w = (r, w')"
  shows "le_world w w'"
  using assms
proof (cases rule: pymupdf_try_cases)
  case (page_failed doc e)
  with pages_loop_effect[OF page_failed(2)] show ?thesis by simp
next
  case (output_not_opened doc parts c w1 e)
  with pages_loop_effect[OF output_not_opened(2)] show ?thesis by simp
next
  case (not_encoded doc parts c w1 w2)
  with pages_loop_effect[OF not_encoded(2)] le_world_open_w[OF not_encoded(3)] show ?thesis
    by (auto intro: le_world_trans)
next
  case (converted doc parts c w1 w2 bs)
  from pages_loop_effect[OF converted(2)] have "le_world w w1" by simp
  with le_world_open_w[OF converted(3)] have "le_world w w2" by (blast intro: le_world_trans)
  then have "le_world w (write_bytes output_path bs w2)"
    using le_world_write_bytes le_world_trans by blast
  with converted show ?thesis by (simp add: le_world_def)
qed simp

lemma pymupdf_try_wf:
  assumes "pymupdf_try ver emb env pdf_path output_path image_folder w = (r, w')" "wf_world w"
  shows "wf_world w'"
  using assms(1)
proof (cases rule: pymupdf_try_cases)
  case not_opened
  with assms(2) show ?thesis by simp
next
  case (page_failed doc e)
  with pages_loop_effect[OF page_failed(2)] assms(2) show ?thesis by simp
next
  case (output_not_opened doc parts c w1 e)
  with pages_loop_effect[OF output_not_opened(2)] assms(2) show ?thesis by simp
next
  case (not_encoded doc parts c w1 w2)
  with pages_loop_effect[OF not_encoded(2)] assms(2) have "wf_world w1" by simp
  with not_encoded show ?thesis by (simp add: wf_world_open_w)
next
  case (converted doc parts c w1 w2 bs)
  with pages_loop_effect[OF converted(2)] assms(2) have "wf_world w1" by simp
  with converted(3) have "wf_world w2" by (simp add: wf_world_open_w)
  moreover from converted(3) have "files w2 output_path \<noteq> None" by (simp add: open_w_Inr)
  ultimately show ?thesis using converted(6) by (simp add: wf_world_write_bytes)
qed

lemma pymupdf_try_frame:
  assumes "pymupdf_try ver emb env pdf_path output_path image_folder w = (r, w')"
    and "p \<noteq> output_path" and "\<forall>f. image_folder = Some f \<longrightarrow> butlast p \<noteq> f"
  shows "files w' p = files w p"
  using assms(1)
proof (cases rule: pymupdf_try_cases)
  case (page_failed doc e)
  with pages_loop_effect[OF page_failed(2), of p] assms(3) show ?thesis by simp
next
  case (output_not_opened doc parts c w1 e)
  with pages_loop_effect[OF output_not_opened(2), of p] assms(3) show ?thesis by simp
next
  case (not_encoded doc parts c w1 w2)
  with pages_loop_effect[OF not_encoded(2), of p] assms(2,3) show ?thesis by (simp add: open_w_Inr)
next
  case (converted doc parts c w1 w2 bs)
  with pages_loop_effect[OF converted(2), of p] assms(2,3) show ?thesis by (simp add: open_w_Inr)
qed simp

lemma pymupdf_try_failed_target:
  assumes "pymupdf_try ver emb env pdf_path output_path image_folder w = (Inl e, w')"
    and "e \<noteq> UnicodeEncodeError" and "\<forall>f. image_folder = Some f \<longrightarrow> butlast output_path \<noteq> f"
  shows "files w' output_path = files w output_path"
  using assms(1)
proof (cases rule: pymupdf_try_cases)
  case (page_failed doc e)
  with pages_loop_effect[OF page_failed(2), of output_path] assms(3) show ?thesis by simp
next
  case (output_not_opened doc parts c w1 e)
  with pages_loop_effect[OF output_not_opened(2), of output_path] assms(3) show ?thesis by simp
next
  case (not_encoded doc parts c w1 w2)
  with assms(2) show ?thesis by simp
qed simp_all

lemma pymupdf_try_embedded:
  assumes "pymupdf_try ver True env pdf_path output_path image_folder w = (r, w')"
  shows "dirs w' = dirs w \<and> (\<forall>p. p \<noteq> output_path \<longrightarrow> files w' p = files w p)"
  using assms
proof (cases rule: pymupdf_try_cases)
  case (page_failed doc e)
  from pages_loop_embedded[OF page_failed(2)] show ?thesis by simp
next
  case (output_not_opened doc parts c w1 e)
  with pages_loop_embedded[OF output_not_opened(2)] show ?thesis by simp
next
  case (not_encoded doc parts c w1 w2)
  with pages_loop_embedded[OF not_encoded(2)] show ?thesis by (simp add: open_w_Inr)
next
  case (converted doc parts c w1 w2 bs)
  with pages_loop_embedded[OF converted(2)] show ?thesis by (simp add: open_w_Inr)
qed simp

lemma pymupdf_try_Inr:
  assumes "pymupdf_try ver emb env pdf_path output_path image_folder w = (Inr u, w')"
  shows "\<exists>doc. fitz_open env pdf_path = Some (map engine_page doc)
           \<and> utf8_encode (markdown_of emb (folder_ref_name ver image_folder) doc) \<noteq> None
           \<and> files w' output_path = utf8_encode (markdown_of emb (folder_ref_name ver image_folder) doc)"
  using assms
proof (cases rule: pymupdf_try_cases)
  case (converted doc parts c w1 w2 bs)
  from pages_loop_Inr[OF converted(2)] obtain d where d: "doc = map engine_page d"
    "parts = markdown_parts_of emb (folder_ref_name ver image_folder) 1 d" by auto
  with converted show ?thesis
    by (intro exI[of _ d]) (simp add: markdown_of_def)
qed simp_all

lemma convert_pdf_with_pymupdf_True:
  "convert_pdf_with_pymupdf ver emb env pdf_path output_path image_folder w = (True, w')
     \<longleftrightarrow> pymupdf_try ver emb env pdf_path output_path image_folder w = (Inr (), w')"
  by (auto simp add: convert_pdf_with_pymupdf_def split: prod.splits sum.splits)

lemma convert_pdf_with_pymupdf_False:
  "convert_pdf_with_pymupdf ver emb env pdf_path output_path image_folder w = (False, w')
     \<longleftrightarrow> (\<exists>e w1. pymupdf_try ver emb env pdf_path output_path image_folder w = (Inl e, w1)
                  \<and> w' = log_info (PyMuPDF_failed pdf_path e) w1)"
  by (auto simp add: convert_pdf_with_pymupdf_def split: prod.splits sum.splits)

lemma primary_fails_to_open:
  "fitz_open env pdf_path = None \<Longrightarrow>
   convert_pdf_with_pymupdf ver emb env pdf_path output_path image_folder w
     = (False, log_info (PyMuPDF_failed pdf_path ExtractionFailed)
                 (log_info (Converting_with_PyMuPDF pdf_path output_path) w))"
  by (simp add: convert_pdf_with_pymupdf_def pymupdf_try_def)

section \<open>The files of folder mode\<close>

lemma write_all_simps [simp]:
  "write_all [] m = m"
  "write_all (x # xs) m = write_all xs (m(fst x \<mapsto> snd x))"
  "write_all (xs @ ys) m = write_all ys (write_all xs m)"
  by (simp_all add: write_all_def case_prod_unfold)

lemma write_all_other: "p \<notin> fst ` set ws \<Longrightarrow> write_all ws m p = m p"
  by (induction ws arbitrary: m) auto

lemma write_all_distinct:
  "distinct (map fst ws) \<Longrightarrow> (p, bs) \<in> set ws \<Longrightarrow> write_all ws m p = Some bs"
proof (induction ws arbitrary: m)
  case Nil
  then show ?case by simp
next
  case (Cons x ws)
  show ?case
  proof (cases "(p, bs) = x")
    case True
    then have x: "x = (p, bs)" by simp
    from Cons.prems(1) have "p \<notin> fst ` set ws" unfolding x by simp
    then have "write_all ws (m(p \<mapsto> bs)) p = (m(p \<mapsto> bs)) p" by (rule write_all_other)
    then show ?thesis unfolding x by simp
  next
    case False
    with Cons show ?thesis by auto
  qed
qed

lemma place_image_written_files:
  assumes "place_image ver False (Some f) n i (Some bi) w = (Inr fragment, w')"
  shows "files w' = (files w)(f @ [image_filename n i (img_ext bi)] \<mapsto> img_bytes bi)"
  using assms
  by (cases rule: place_image_cases) (auto simp add: mkdir_parents_Inr open_w_Inr)

lemma images_loop_files:
  assumes "images_loop ver False (Some f) n i (map Some bis) acc w = (Inr acc', w')"
  shows "files w' = write_all (page_image_writes f n i bis) (files w)"
  using assms
proof (induction bis arbitrary: i acc w)
  case Nil
  then show ?case by (simp add: page_image_writes_def)
next
  case (Cons bi bis)
  obtain parts c where acc: "acc = (parts, c)" by (cases acc)
  obtain r1 w1 where p: "place_image ver False (Some f) n i (Some bi) w = (r1, w1)"
    by (cases "place_image ver False (Some f) n i (Some bi) w")
  show ?case
  proof (cases r1)
    case (Inl e)
    with Cons.prems p acc show ?thesis by simp
  next
    case (Inr fragment)
    with Cons.prems p acc
    have "images_loop ver False (Some f) n (Suc i) (map Some bis) (parts @ [fragment], Suc c) w1 = (Inr acc', w')"
      by simp
    from Cons.IH[OF this]
    have a: "files w' = write_all (page_image_writes f n (Suc i) bis) (files w1)" .
    note b = place_image_written_files[OF p[unfolded Inr]]
    show ?thesis unfolding a b by (simp add: page_image_writes_def)
  qed
qed

lemma pages_loop_files:
  assumes "pages_loop ver False (Some f) n (map engine_page doc) acc w = (Inr acc', w')"
  shows "files w' = write_all (image_writes f n doc) (files w)"
  using assms
proof (induction doc arbitrary: n acc w)
  case Nil
  then show ?case by (simp add: image_writes_def)
next
  case (Cons pg doc)
  obtain parts c where acc: "acc = (parts, c)" by (cases acc)
  from Cons.prems[unfolded acc list.map] show ?case
  proof (cases rule: pages_loop_cases)
    case (next_page ptext images acc1 w1)
    from next_page(2) have im: "images = map Some (snd pg)" by (simp add: engine_page_def)
    note a = images_loop_files[OF next_page(3)[unfolded im]]
    note b = Cons.IH[OF next_page(4)]
    show ?thesis unfolding b a by (simp add: image_writes_def)
  qed simp_all
qed

lemma image_writes_paths:
  "map fst (image_writes f k doc)
     = map (\<lambda>name. f @ [name])
         (concat (map (\<lambda>(page_num, p). page_image_names page_num (snd p)) (enumerate k doc)))"
  by (induction doc arbitrary: k)
     (simp_all add: image_writes_def page_image_writes_def page_image_names_def case_prod_unfold comp_def)

lemma image_writes_distinct: "distinct (map fst (image_writes f k doc))"
  unfolding image_writes_paths
  by (simp add: distinct_map names_from_distinct inj_on_def)

lemma image_writes_in_folder: "(p, bs) \<in> set (image_writes f k doc) \<Longrightarrow> butlast p = f"
proof -
  assume "(p, bs) \<in> set (image_writes f k doc)"
  then have "p \<in> set (map fst (image_writes f k doc))" by force
  then show ?thesis unfolding image_writes_paths by auto
qed

lemma page_image_writes_zip:
  "page_image_writes f n i bis
     = zip (map (\<lambda>name. f @ [name])
              (map (\<lambda>(img_index, bi). image_filename n img_index (img_ext bi)) (enumerate i bis)))
           (map img_bytes bis)"
  by (induction bis arbitrary: i) (simp_all add: page_image_writes_def)

lemma image_writes_zip:
  "image_writes f k doc
     = zip (map (\<lambda>name. f @ [name])
              (concat (map (\<lambda>(page_num, p).
                              map (\<lambda>(img_index, bi). image_filename page_num img_index (img_ext bi))
                                (enumerate 0 (snd p)))
                         (enumerate k doc))))
           (map img_bytes (concat (map snd doc)))"
proof (induction doc arbitrary: k)
  case Nil
  show ?case by (simp add: image_writes_def)
next
  case (Cons pg doc)
  have "image_writes f k (pg # doc) = page_image_writes f k 0 (snd pg) @ image_writes f (Suc k) doc"
    by (simp add: image_writes_def)
  then show ?case
    by (simp add: Cons page_image_writes_zip)
qed

lemma names_length:
  "length (concat (map (\<lambda>(page_num, p).
                              map (\<lambda>(img_index, bi). image_filename page_num img_index (img_ext bi))
                                (enumerate 0 (snd p)))
                         (enumerate k doc)))
     = length (concat (map snd doc))"
  by (induction doc arbitrary: k) simp_all

section \<open>When the primary conversion succeeds\<close>

lemma images_loop_embedded_succeeds:
  "\<exists>acc'. images_loop ver True image_folder n i (map Some bis) acc w = (Inr acc', w)"
proof (induction bis arbitrary: i acc)
  case Nil
  show ?case by simp
next
  case (Cons bi bis)
  obtain parts c where acc: "acc = (parts, c)" by (cases acc)
  have "place_image ver True image_folder n i (Some bi) w = (Inr (data_uri_fragment bi), w)"
    by (simp add: place_image_def data_uri_fragment_def)
  with Cons[of "Suc i" "(parts @ [data_uri_fragment bi], Suc c)"] show ?case
    by (simp add: acc)
qed

lemma pages_loop_embedded_succeeds:
  "\<exists>acc'. pages_loop ver True image_folder n (map engine_page doc) acc w = (Inr acc', w)"
proof (induction doc arbitrary: n acc)
  case Nil
  show ?case by simp
next
  case (Cons pg doc)
  obtain parts c where acc: "acc = (parts, c)" by (cases acc)
  from images_loop_embedded_succeeds[of ver image_folder n 0 "snd pg" "(parts @ [page_header n (fst pg)], c)" w]
  obtain acc1 where "images_loop ver True image_folder n 0 (map Some (snd pg)) (parts @ [page_header n (fst pg)], c) w = (Inr acc1, w)"
    by blast
  with Cons[of "Suc n" acc1] show ?case
    by (simp add: acc engine_page_def)
qed

lemma place_image_folder_succeeds:
  assumes "folder_free f w"
  shows "\<exists>fragment w'. place_image ver False (Some f) n i (Some bi) w = (Inr fragment, w')
           \<and> folder_free f w' \<and> dirs w' = dirs w \<union> set (prefixes f)"
proof -
  let ?p = "f @ [image_filename n i (img_ext bi)]"
  let ?w1 = "w\<lparr>dirs := dirs w \<union> set (prefixes f)\<rparr>"
  from assms have mk: "mkdir_parents f w = Inr ?w1"
    by (simp add: mkdir_parents_Inr folder_free_def)
  have np: "\<And>name. f @ [name] \<notin> set (prefixes f)"
    by (auto simp add: in_set_prefixes dest: prefix_length_le)
  with assms have op: "open_w ?p ?w1 = Inr (?w1\<lparr>files := (files ?w1)(?p \<mapsto> [])\<rparr>)"
    by (simp add: open_w_Inr folder_free_def in_set_prefixes)
  have "folder_free f (write_bytes ?p (img_bytes bi) (?w1\<lparr>files := (files ?w1)(?p \<mapsto> [])\<rparr>))"
    using assms np by (auto simp add: folder_free_def)
  with mk op show ?thesis
    by (simp add: place_image_def Let_def)
qed

lemma images_loop_folder_succeeds:
  assumes "folder_free f w"
  shows "\<exists>acc' w'. images_loop ver False (Some f) n i (map Some bis) acc w = (Inr acc', w')
           \<and> folder_free f w' \<and> dirs w \<subseteq> dirs w' \<and> dirs w' \<subseteq> dirs w \<union> set (prefixes f)"
  using assms
proof (induction bis arbitrary: i acc w)
  case Nil
  then show ?case by simp
next
  case (Cons bi bis)
  obtain parts c where acc: "acc = (parts, c)" by (cases acc)
  from place_image_folder_succeeds[OF Cons.prems, of ver n i bi]
  obtain fragment w1 where p: "place_image ver False (Some f) n i (Some bi) w = (Inr fragment, w1)"
    "folder_free f w1" "dirs w1 = dirs w \<union> set (prefixes f)" by blast
  from Cons.IH[OF p(2), of "Suc i" "(parts @ [fragment], Suc c)"]
  obtain acc' w' where l: "images_loop ver False (Some f) n (Suc i) (map Some bis) (parts @ [fragment], Suc c) w1 = (Inr acc', w')"
    "folder_free f w'" "dirs w1 \<subseteq> dirs w'" "dirs w' \<subseteq> dirs w1 \<union> set (prefixes f)" by blast
  from p l show ?case
    by (intro exI[of _ acc'] exI[of _ w']) (auto simp add: acc)
qed

lemma engine_page_simps [simp]:
  "get_text (engine_page pg) = Some (fst pg)" "get_images (engine_page pg) = Some (map Some (snd pg))"
  by (simp_all add: engine_page_def)

lemma pages_loop_folder_succeeds:
  assumes "folder_free f w"
  shows "\<exists>acc' w'. pages_loop ver False (Some f) n (map engine_page doc) acc w = (Inr acc', w')
           \<and> folder_free f w' \<and> dirs w \<subseteq> dirs w' \<and> dirs w' \<subseteq> dirs w \<union> set (prefixes f)"
  using assms
proof (induction doc arbitrary: n acc w)
  case Nil
  then show ?case by simp
next
  case (Cons pg doc)
  obtain parts c where acc: "acc = (parts, c)" by (cases acc)
  from images_loop_folder_succeeds[OF Cons.prems, of ver n 0 "snd pg" "(parts @ [page_header n (fst pg)], c)"]
  obtain acc1 w1 where i: "images_loop ver False (Some f) n 0 (map Some (snd pg)) (parts @ [page_header n (fst pg)], c) w = (Inr acc1, w1)"
    "folder_free f w1" "dirs w \<subseteq> dirs w1" "dirs w1 \<subseteq> dirs w \<union> set (prefixes f)" by blast
  from Cons.IH[OF i(2), of "Suc n" acc1]
  obtain acc' w' where l: "pages_loop ver False (Some f) (Suc n) (map engine_page doc) acc1 w1 = (Inr acc', w')"
    "folder_free f w'" "dirs w1 \<subseteq> dirs w'" "dirs w' \<subseteq> dirs w1 \<union> set (prefixes f)" by blast
  from i l show ?case
    by (intro exI[of _ acc'] exI[of _ w']) (auto simp add: acc)
qed

lemma folder_free_log_info [simp]: "folder_free f (log_info r w) = folder_free f w"
  by (simp add: folder_free_def)

lemma primary_succeeds:
  assumes doc: "fitz_open env pdf_path = Some (map engine_page doc)"
    and parent: "butlast output_path \<in> dirs w" and nodir: "output_path \<notin> dirs w"
    and enc: "\<not> list_ex is_surrogate (markdown_of emb (folder_ref_name ver image_folder) doc)"
    and folder: "emb \<or> (\<exists>f. image_folder = Some f \<and> folder_free f w \<and> \<not> prefix output_path f)"
  shows "fst (convert_pdf_with_pymupdf ver emb env pdf_path output_path image_folder w)"
proof -
  let ?w0 = "log_info (Converting_with_PyMuPDF pdf_path output_path) w"
  have "\<exists>acc' w1. pages_loop ver emb image_folder 1 (map engine_page doc) ([], 0) ?w0 = (Inr acc', w1)
          \<and> butlast output_path \<in> dirs w1 \<and> output_path \<notin> dirs w1"
  proof (cases emb)
    case True
    with pages_loop_embedded_succeeds[of ver image_folder 1 doc "([], 0)" ?w0] parent nodir
    show ?thesis by auto
  next
    case False
    with folder obtain f where f: "image_folder = Some f" "folder_free f w" "\<not> prefix output_path f"
      by blast
    from f(2) have "folder_free f ?w0" by simp
    from pages_loop_folder_succeeds[OF this, of ver 1 doc "([], 0)"]
    obtain acc' w1 where l: "pages_loop ver False (Some f) 1 (map engine_page doc) ([], 0) ?w0 = (Inr acc', w1)"
      "dirs ?w0 \<subseteq> dirs w1" "dirs w1 \<subseteq> dirs ?w0 \<union> set (prefixes f)" by blast
    from f(3) have "output_path \<notin> set (prefixes f)" by (simp add: in_set_prefixes)
    with l parent nodir False f(1) show ?thesis by auto
  qed
  then obtain parts c w1 where l: "pages_loop ver emb image_folder 1 (map engine_page doc) ([], 0) ?w0 = (Inr (parts, c), w1)"
    "butlast output_path \<in> dirs w1" "output_path \<notin> dirs w1" by auto
  from pages_loop_Inr[OF l(1)] obtain d where d: "map engine_page doc = map engine_page d"
    "parts = markdown_parts_of emb (folder_ref_name ver image_folder) 1 d" by auto
  have "inj engine_page"
    by (auto simp add: inj_on_def engine_page_def prod_eq_iff dest: map_injective)
  with d(1) have "d = doc" by (simp add: inj_map_eq_map)
  with d(2) enc have "utf8_encode (join [10] parts) \<noteq> None"
    by (simp add: utf8_encode_None markdown_of_def)
  then obtain bs where bs: "utf8_encode (join [10] parts) = Some bs" by auto
  from l(2,3) have "open_w output_path w1 = Inr (w1\<lparr>files := (files w1)(output_path \<mapsto> [])\<rparr>)"
    by (simp add: open_w_Inr)
  with doc l(1) bs show ?thesis
    by (simp add: convert_pdf_with_pymupdf_def pymupdf_try_def write_text_def)
qed

section \<open>What a successful primary conversion leaves\<close>

lemma pymupdf_try_folder_files:
  assumes "pymupdf_try ver False env pdf_path output_path (Some f) w = (Inr u, w')"
  shows "\<exists>doc. fitz_open env pdf_path = Some (map engine_page doc)
           \<and> utf8_encode (markdown_of False (folder_ref_name ver (Some f)) doc) \<noteq> None
           \<and> files w' = (write_all (image_writes f 1 doc) (files w))
                           (output_path := utf8_encode (markdown_of False (folder_ref_name ver (Some f)) doc))"
  using assms
proof (cases rule: pymupdf_try_cases)
  case (converted doc parts c w1 w2 bs)
  from pages_loop_Inr[OF converted(2)] obtain d where d: "doc = map engine_page d"
    "parts = markdown_parts_of False (folder_ref_name ver (Some f)) 1 d" by auto
  from pages_loop_files[OF converted(2)[unfolded d(1)]]
  have "files w1 = write_all (image_writes f 1 d) (files w)" by simp
  with converted d show ?thesis
    by (intro exI[of _ d]) (simp add: markdown_of_def open_w_Inr)
qed simp_all

lemma pymupdf_try_embedded_files:
  assumes "pymupdf_try ver True env pdf_path output_path image_folder w = (Inr u, w')"
  shows "\<exists>doc. fitz_open env pdf_path = Some (map engine_page doc)
           \<and> utf8_encode (markdown_of True (folder_ref_name ver image_folder) doc) \<noteq> None
           \<and> dirs w' = dirs w
           \<and> files w' = (files w)(output_path := utf8_encode (markdown_of True (folder_ref_name ver image_folder) doc))"
  using assms
proof (cases rule: pymupdf_try_cases)
  case (converted doc parts c w1 w2 bs)
  from pages_loop_Inr[OF converted(2)] obtain d where d: "doc = map engine_page d"
    "parts = markdown_parts_of True (folder_ref_name ver image_folder) 1 d" by auto
  from pages_loop_embedded[OF converted(2)] have "w1 = log_info (Converting_with_PyMuPDF pdf_path output_path) w" .
  with converted d show ?thesis
    by (intro exI[of _ d]) (simp add: markdown_of_def open_w_Inr)
qed simp_all

lemma convert_pdf_with_pymupdf_fst:
  "fst (convert_pdf_with_pymupdf ver emb env pdf_path output_path image_folder w)
     \<longleftrightarrow> pymupdf_try ver emb env pdf_path output_path image_folder w
           = (Inr (), snd (convert_pdf_with_pymupdf ver emb env pdf_path output_path image_folder w))"
  by (auto simp add: convert_pdf_with_pymupdf_def split: prod.splits sum.splits)

lemma markdown_parts_embedded:
  "markdown_parts_of True folder_name k doc
     = concat (map (\<lambda>(page_num, p). page_header page_num (fst p) # map data_uri_fragment (snd p))
                 (enumerate k doc))"
proof -
  have "map (\<lambda>(img_index, bi). image_fragment True folder_name n img_index bi) (enumerate i bis)
          = map data_uri_fragment bis" for n i bis
    by (induction bis arbitrary: i) (simp_all add: image_fragment_def)
  then show ?thesis by (simp add: markdown_parts_of_def page_fragments_def)
qed

lemma markdown_parts_folder:
  "markdown_parts_of False folder_name k doc
     = concat (map (\<lambda>(page_num, p). page_header page_num (fst p)
                      # map (file_ref_fragment folder_name) (page_image_names page_num (snd p)))
                 (enumerate k doc))"
  by (simp add: markdown_parts_of_def page_fragments_def page_image_names_def image_fragment_def
        comp_def case_prod_unfold)

section \<open>The fallback conversion\<close>

lemma markitdown_try_cases:
  assumes "markitdown_try ver env pdf_path output_path w = (r, w')"
  obtains
    (not_converted) "markitdown_convert env pdf_path = None" "r = Inl ConversionFailed" "w' = w"
  | (output_not_opened) md_text e where "markitdown_convert env pdf_path = Some md_text"
      "open_w output_path w = Inl e" "r = Inl e" "w' = w"
  | (not_encoded) md_text w1 where "markitdown_convert env pdf_path = Some md_text"
      "open_w output_path w = Inr w1" "utf8_encode md_text = None"
      "r = Inl UnicodeEncodeError" "w' = w1"
  | (converted) md_text w1 bs where "markitdown_convert env pdf_path = Some md_text"
      "open_w output_path w = Inr w1" "utf8_encode md_text = Some bs" "r = Inr ()"
      "w' = (case ver of V1 \<Rightarrow> write_bytes output_path bs w1
                      | V3 \<Rightarrow> log_info (Markitdown_converted (path_name pdf_path)) (write_bytes output_path bs w1))"
proof (cases "markitdown_convert env pdf_path")
  case None
  with assms show ?thesis by (intro not_converted) (simp_all add: markitdown_try_def)
next
  case (Some md_text)
  note out = this
  show ?thesis
  proof (cases "open_w output_path w")
    case (Inl e)
    with assms out show ?thesis
      by (intro output_not_opened[of md_text e]) (simp_all add: markitdown_try_def)
  next
    case (Inr w1)
    note w1 = this
    show ?thesis
    proof (cases "utf8_encode md_text")
      case None
      with assms out w1 show ?thesis
        by (intro not_encoded[of md_text w1]) (simp_all add: markitdown_try_def write_text_def)
    next
      case (Some bs)
      with assms out w1 show ?thesis
        by (intro converted[of md_text w1 bs])
           (auto simp add: markitdown_try_def write_text_def split: version.splits)
    qed
  qed
qed

lemma markitdown_try_effect:
  assumes "markitdown_try ver env pdf_path output_path w = (r, w')"
  shows "dirs w' = dirs w" and "le_world w w'" and "wf_world w \<Longrightarrow> wf_world w'"
    and "p \<noteq> output_path \<Longrightarrow> files w' p = files w p"
proof -
  show "dirs w' = dirs w"
    using assms by (cases rule: markitdown_try_cases) (auto simp add: open_w_Inr split: version.splits)
  show "le_world w w'"
    using assms
    by (cases rule: markitdown_try_cases)
       (auto simp add: open_w_Inr le_world_def split: version.splits)
  show "files w' p = files w p" if "p \<noteq> output_path"
    using assms that
    by (cases rule: markitdown_try_cases) (auto simp add: open_w_Inr split: version.splits)
  show "wf_world w'" if wf: "wf_world w"
    using assms
  proof (cases rule: markitdown_try_cases)
    case (not_encoded md_text w1)
    with wf show ?thesis by (simp add: wf_world_open_w)
  next
    case (converted md_text w1 bs)
    with wf have "wf_world w1" by (simp add: wf_world_open_w)
    moreover from converted(2) have "files w1 output_path \<noteq> None" by (simp add: open_w_Inr)
    ultimately have "wf_world (write_bytes output_path bs w1)" by (rule wf_world_write_bytes)
    with converted(5) show ?thesis by (cases ver) simp_all
  qed (simp_all add: wf)
qed

lemma markitdown_try_logged:
  assumes "markitdown_try ver env pdf_path output_path w = (r, w')"
  shows "logged w' = logged w @ (case r of Inl e \<Rightarrow> []
            | Inr u \<Rightarrow> (case ver of V1 \<Rightarrow> [] | V3 \<Rightarrow> [Markitdown_converted (path_name pdf_path)]))"
  using assms
  by (cases rule: markitdown_try_cases) (auto simp add: open_w_Inr split: version.splits)

lemma markitdown_try_failed_target:
  assumes "markitdown_try ver env pdf_path output_path w = (Inl e, w')" "e \<noteq> UnicodeEncodeError"
  shows "files w' = files w"
  using assms by (cases rule: markitdown_try_cases) simp_all

lemma markitdown_try_Inr:
  assumes "markitdown_try ver env pdf_path output_path w = (Inr u, w')"
  shows "\<exists>md_text. markitdown_convert env pdf_path = Some md_text \<and> utf8_encode md_text \<noteq> None
            \<and> files w' output_path = utf8_encode md_text"
  using assms by (cases rule: markitdown_try_cases) (auto split: version.splits)

lemma convert_pdf_with_markitdown_eq:
  assumes "butlast output_path \<in> dirs w"
  shows "convert_pdf_with_markitdown V3 env pdf_path output_path w =
     (let w0 = log_info (Converting_with_markitdown pdf_path output_path) w in
      case markitdown_convert env pdf_path of
        None \<Rightarrow> log_info (Markitdown_failed pdf_path ConversionFailed) w0
      | Some md_text \<Rightarrow>
          if output_path \<in> dirs w then log_info (Markitdown_failed pdf_path IsADirectoryError) w0
          else (case utf8_encode md_text of
                  None \<Rightarrow> log_info (Markitdown_failed pdf_path UnicodeEncodeError)
                            (w0\<lparr>files := (files w)(output_path \<mapsto> [])\<rparr>)
                | Some bs \<Rightarrow> log_info (Markitdown_converted (path_name pdf_path))
                              (write_bytes output_path bs (w0\<lparr>files := (files w)(output_path \<mapsto> [])\<rparr>))))"
  using assms
  by (simp add: convert_pdf_with_markitdown_def markitdown_try_def open_w_def write_text_def Let_def
           split: option.splits)

section \<open>One job\<close>

lemma convert_with_fallback_cases:
  assumes "convert_with_fallback ver emb env pdf_path output_path image_folder w = (r, w')"
  obtains
    (raised) e where "mkdir_parents (butlast output_path) w = Inl e" "r = Inl e" "w' = w"
  | (primary) w1 where "mkdir_parents (butlast output_path) w = Inr w1"
      "pymupdf_try ver emb env pdf_path output_path image_folder w1 = (Inr (), w')" "r = Inr ()"
  | (fallback) w1 e w2 where "mkdir_parents (butlast output_path) w = Inr w1"
      "pymupdf_try ver emb env pdf_path output_path image_folder w1 = (Inl e, w2)"
      "markitdown_try ver env pdf_path output_path
         (log_info (Converting_with_markitdown pdf_path output_path)
            (log_info (PyMuPDF_failed pdf_path e) w2)) = (Inr (), w')"
      "r = Inr ()"
  | (both_failed) w1 e w2 e' w3 where "mkdir_parents (butlast output_path) w = Inr w1"
      "pymupdf_try ver emb env pdf_path output_path image_folder w1 = (Inl e, w2)"
      "markitdown_try ver env pdf_path output_path
         (log_info (Converting_with_markitdown pdf_path output_path)
            (log_info (PyMuPDF_failed pdf_path e) w2)) = (Inl e', w3)"
      "r = Inr ()" "w' = log_info (Markitdown_failed pdf_path e') w3"
proof (cases "mkdir_parents (butlast output_path) w")
  case (Inl e)
  with assms show ?thesis by (intro raised[of e]) (simp_all add: convert_with_fallback_def)
next
  case (Inr w1)
  note w1 = this
  obtain r2 w2 where t: "pymupdf_try ver emb env pdf_path output_path image_folder w1 = (r2, w2)"
    by (cases "pymupdf_try ver emb env pdf_path output_path image_folder w1")
  show ?thesis
  proof (cases r2)
    case (Inr u)
    with assms w1 t show ?thesis
      by (intro primary[of w1]) (simp_all add: convert_with_fallback_def convert_pdf_with_pymupdf_def)
  next
    case (Inl e)
    note e = this
    obtain r3 w3 where m: "markitdown_try ver env pdf_path output_path
         (log_info (Converting_with_markitdown pdf_path output_path)
            (log_info (PyMuPDF_failed pdf_path e) w2)) = (r3, w3)"
      by (cases "markitdown_try ver env pdf_path output_path
         (log_info (Converting_with_markitdown pdf_path output_path)
            (log_info (PyMuPDF_failed pdf_path e) w2))")
    show ?thesis
    proof (cases r3)
      case (Inr u)
      with assms w1 t e m show ?thesis
        by (intro fallback[of w1 e w2])
           (simp_all add: convert_with_fallback_def convert_pdf_with_pymupdf_def
              convert_pdf_with_markitdown_def)
    next
      case (Inl e')
      with assms w1 t e m show ?thesis
        by (intro both_failed[of w1 e w2 e' w3])
           (simp_all add: convert_with_fallback_def convert_pdf_with_pymupdf_def
              convert_pdf_with_markitdown_def)
    qed
  qed
qed

lemma convert_with_fallback_returns:
  "fst (convert_with_fallback ver emb env pdf_path output_path image_folder w) = Inr ()
     \<longleftrightarrow> (\<forall>q \<in> set (prefixes (butlast output_path)). files w q = None)"
proof -
  obtain r w' where c: "convert_with_fallback ver emb env pdf_path output_path image_folder w = (r, w')"
    by (cases "convert_with_fallback ver emb env pdf_path output_path image_folder w")
  from c show ?thesis
  proof (cases rule: convert_with_fallback_cases)
    case (raised e)
    from mkdir_parents_Inl[OF raised(1)] raised c show ?thesis by auto
  qed (auto simp add: c mkdir_parents_Inr)
qed

text \<open>The records one job adds to the log, by its outcome.\<close>

lemma convert_with_fallback_logged:
  assumes "convert_with_fallback V3 emb env pdf_path output_path image_folder w = (Inr u, w')"
  shows "(\<exists>c. logged w' = logged w @ [Converting_with_PyMuPDF pdf_path output_path,
                                       PyMuPDF_converted (path_name pdf_path) c])
       \<or> (\<exists>e md_text. logged w' = logged w @ [Converting_with_PyMuPDF pdf_path output_path,
                                    PyMuPDF_failed pdf_path e,
                                    Converting_with_markitdown pdf_path output_path,
                                    Markitdown_converted (path_name pdf_path)]
              \<and> markitdown_convert env pdf_path = Some md_text
              \<and> utf8_encode md_text \<noteq> None
              \<and> files w' output_path = utf8_encode md_text)
       \<or> (\<exists>e e'. logged w' = logged w @ [Converting_with_PyMuPDF pdf_path output_path,
                                    PyMuPDF_failed pdf_path e,
                                    Converting_with_markitdown pdf_path output_path,
                                    Markitdown_failed pdf_path e'])"
  using assms
proof (cases rule: convert_with_fallback_cases)
  case (primary w1)
  from pymupdf_try_logged[OF primary(2)] primary(1) have ?thesis
    by (auto simp add: mkdir_parents_Inr)
  then show ?thesis .
next
  case (fallback w1 e w2)
  from pymupdf_try_logged[OF fallback(2)] fallback(1)
  have l2: "logged w2 = logged w @ [Converting_with_PyMuPDF pdf_path output_path]"
    by (auto simp add: mkdir_parents_Inr)
  from markitdown_try_logged[OF fallback(3)] l2
  have "logged w' = logged w @ [Converting_with_PyMuPDF pdf_path output_path,
                                    PyMuPDF_failed pdf_path e,
                                    Converting_with_markitdown pdf_path output_path,
                                    Markitdown_converted (path_name pdf_path)]" by simp
  with markitdown_try_Inr[OF fallback(3)] show ?thesis by blast
next
  case (both_failed w1 e w2 e' w3)
  from pymupdf_try_logged[OF both_failed(2)] both_failed(1)
  have l2: "logged w2 = logged w @ [Converting_with_PyMuPDF pdf_path output_path]"
    by (auto simp add: mkdir_parents_Inr)
  from markitdown_try_logged[OF both_failed(3)] l2 both_failed(5)
  have "logged w' = logged w @ [Converting_with_PyMuPDF pdf_path output_path,
                                    PyMuPDF_failed pdf_path e,
                                    Converting_with_markitdown pdf_path output_path,
                                    Markitdown_failed pdf_path e']" by simp
  then show ?thesis by blast
qed simp

lemma process_pdf_eq:
  "output_path_of pdf_path source_dir output_dir = Some output_path \<Longrightarrow>
   process_pdf self env pdf_path source_dir output_dir w
     = convert_with_fallback V3 (embed_images self) env pdf_path output_path
         (if \<not> embed_images self then Some (butlast output_path @ [S ''images'']) else None) w"
  by (simp add: process_pdf_def)

lemma process_pdf_v1_eq:
  "output_path_of pdf_path source_dir output_dir = Some output_path \<Longrightarrow>
   process_pdf_v1 env source_dir pdf_path output_dir image_folder emb w
     = convert_with_fallback V1 emb env pdf_path output_path
         (case image_folder of Some folder \<Rightarrow> if \<not> emb then Some (joinpath (butlast output_path) folder) else None
                             | None \<Rightarrow> None) w"
  by (simp add: process_pdf_v1_def)

lemma a_md_path: "output_path_of a_pdf src_dir out_dir = Some a_md"
  by (simp add: output_path_of_def relative_to_def with_suffix_def py_suffix_def S_def
        a_pdf_def src_dir_def out_dir_def a_md_def)

lemma a_md_parent: "butlast a_md = out_dir" "prefixes out_dir = [[], out_dir]"
  by (simp_all add: a_md_def out_dir_def)

lemma empty_world_job_returns:
  "fst (process_pdf self env a_pdf src_dir out_dir empty_world) = Inr ()"
  by (simp add: process_pdf_eq[OF a_md_path] convert_with_fallback_returns empty_world_def)

lemma convert_with_fallback_le:
  assumes "convert_with_fallback ver emb env pdf_path output_path image_folder w = (r, w')"
  shows "le_world w w'"
  using assms
proof (cases rule: convert_with_fallback_cases)
  case (primary w1)
  from le_world_mkdir[OF primary(1)] pymupdf_try_le[OF primary(2)] show ?thesis
    by (rule le_world_trans)
next
  case (fallback w1 e w2)
  from le_world_mkdir[OF fallback(1)] pymupdf_try_le[OF fallback(2)]
  have "le_world w w2" by (rule le_world_trans)
  moreover from markitdown_try_effect(2)[OF fallback(3)] have "le_world w2 w'" by simp
  ultimately show ?thesis by (rule le_world_trans)
next
  case (both_failed w1 e w2 e' w3)
  from le_world_mkdir[OF both_failed(1)] pymupdf_try_le[OF both_failed(2)]
  have "le_world w w2" by (rule le_world_trans)
  moreover from markitdown_try_effect(2)[OF both_failed(3)] have "le_world w2 w3" by simp
  ultimately have "le_world w w3" by (rule le_world_trans)
  with both_failed(5) show ?thesis by (simp add: le_world_def)
qed simp

lemma convert_with_fallback_wf:
  assumes "convert_with_fallback ver emb env pdf_path output_path image_folder w = (r, w')"
    and wf: "wf_world w"
  shows "wf_world w'"
  using assms(1)
proof (cases rule: convert_with_fallback_cases)
  case (raised e)
  with wf show ?thesis by simp
next
  case (primary w1)
  from wf_world_mkdir[OF wf primary(1)] pymupdf_try_wf[OF primary(2)] show ?thesis by simp
next
  case (fallback w1 e w2)
  from wf_world_mkdir[OF wf fallback(1)] pymupdf_try_wf[OF fallback(2)] have "wf_world w2" by simp
  with markitdown_try_effect(3)[OF fallback(3)] show ?thesis by simp
next
  case (both_failed w1 e w2 e' w3)
  from wf_world_mkdir[OF wf both_failed(1)] pymupdf_try_wf[OF both_failed(2)] have "wf_world w2" by simp
  with markitdown_try_effect(3)[OF both_failed(3)] both_failed(5) show ?thesis by simp
qed


section \<open>The jobs on the concrete inputs\<close>

lemma both_fail_job:
  assumes "fitz_open env pdf_path = None" "markitdown_convert env pdf_path = None"
    and "mkdir_parents (butlast output_path) w = Inr w1"
  shows "convert_with_fallback ver emb env pdf_path output_path image_folder w =
           (Inr (), log_info (Markitdown_failed pdf_path ConversionFailed)
                      (log_info (Converting_with_markitdown pdf_path output_path)
                         (log_info (PyMuPDF_failed pdf_path ExtractionFailed)
                            (log_info (Converting_with_PyMuPDF pdf_path output_path) w1))))"
  using assms
  by (simp add: convert_with_fallback_def convert_pdf_with_pymupdf_def pymupdf_try_def
        convert_pdf_with_markitdown_def markitdown_try_def)

lemma empty_world_mkdir:
  "mkdir_parents out_dir empty_world = Inr (empty_world\<lparr>dirs := {[]} \<union> set (prefixes out_dir)\<rparr>)"
  by (simp add: mkdir_parents_Inr empty_world_def)

lemma stale_world_mkdir:
  "mkdir_parents out_dir stale_world = Inr (stale_world\<lparr>dirs := {[], out_dir} \<union> set (prefixes out_dir)\<rparr>)"
  by (simp add: mkdir_parents_Inr stale_world_def a_md_parent a_md_def out_dir_def)

lemma broken_engines_fail:
  "fitz_open broken_engines p = None" "markitdown_convert broken_engines p = None"
  by (simp_all add: broken_engines_def)

lemma stale_job_run:
  "process_pdf folder_mode broken_engines a_pdf src_dir out_dir stale_world =
     (Inr (), log_info (Markitdown_failed a_pdf ConversionFailed)
                (log_info (Converting_with_markitdown a_pdf a_md)
                   (log_info (PyMuPDF_failed a_pdf ExtractionFailed)
                      (log_info (Converting_with_PyMuPDF a_pdf a_md)
                         (stale_world\<lparr>dirs := {[], out_dir} \<union> set (prefixes out_dir)\<rparr>)))))"
proof -
  have "mkdir_parents (butlast a_md) stale_world
          = Inr (stale_world\<lparr>dirs := {[], out_dir} \<union> set (prefixes out_dir)\<rparr>)"
    by (simp only: a_md_parent(1) stale_world_mkdir)
  from both_fail_job[OF broken_engines_fail this] show ?thesis
    by (simp only: process_pdf_eq[OF a_md_path])
qed

lemma stale_job:
  "logged (snd (process_pdf folder_mode broken_engines a_pdf src_dir out_dir stale_world))
     = [Converting_with_PyMuPDF a_pdf a_md, PyMuPDF_failed a_pdf ExtractionFailed,
        Converting_with_markitdown a_pdf a_md, Markitdown_failed a_pdf ConversionFailed]"
  "files (snd (process_pdf folder_mode broken_engines a_pdf src_dir out_dir stale_world)) a_md = Some [1]"
  "files stale_world a_md = Some [1]"
  unfolding stale_job_run by (simp_all add: stale_world_def)

lemma surrogate_job:
  "logged (snd (process_pdf folder_mode surrogate_engines a_pdf src_dir out_dir empty_world))
     = [Converting_with_PyMuPDF a_pdf a_md, PyMuPDF_failed a_pdf UnicodeEncodeError,
        Converting_with_markitdown a_pdf a_md, Markitdown_failed a_pdf ConversionFailed]"
  "files (snd (process_pdf folder_mode surrogate_engines a_pdf src_dir out_dir empty_world)) a_md = Some []"
  unfolding process_pdf_eq[OF a_md_path]
  by (simp_all add: convert_with_fallback_def folder_mode_def
        mkdir_parents_def convert_pdf_with_pymupdf_def pymupdf_try_def
        convert_pdf_with_markitdown_def markitdown_try_def surrogate_engines_def
        open_w_def write_text_def utf8_encode_def page_header_def is_surrogate_def
        empty_world_def a_md_parent a_md_def out_dir_def S_def)

lemma broken_job_run:
  "process_pdf self broken_engines a_pdf src_dir out_dir empty_world =
     (Inr (), log_info (Markitdown_failed a_pdf ConversionFailed)
                (log_info (Converting_with_markitdown a_pdf a_md)
                   (log_info (PyMuPDF_failed a_pdf ExtractionFailed)
                      (log_info (Converting_with_PyMuPDF a_pdf a_md)
                         (empty_world\<lparr>dirs := {[]} \<union> set (prefixes out_dir)\<rparr>)))))"
proof -
  have "mkdir_parents (butlast a_md) empty_world
          = Inr (empty_world\<lparr>dirs := {[]} \<union> set (prefixes out_dir)\<rparr>)"
    by (simp only: a_md_parent(1) empty_world_mkdir)
  from both_fail_job[OF broken_engines_fail this] show ?thesis
    by (simp only: process_pdf_eq[OF a_md_path])
qed

lemma broken_job:
  "logged (snd (process_pdf self broken_engines a_pdf src_dir out_dir empty_world))
     = logged empty_world @ [Converting_with_PyMuPDF a_pdf a_md, PyMuPDF_failed a_pdf ExtractionFailed,
        Converting_with_markitdown a_pdf a_md, Markitdown_failed a_pdf ConversionFailed]"
  "files empty_world a_md = None"
  "dirs (snd (process_pdf self broken_engines a_pdf src_dir out_dir empty_world)) = {[], out_dir}"
  unfolding broken_job_run by (auto simp add: empty_world_def a_md_parent)


lemma one_file_collected: "collect_pdf_files src_dir one_file = [a_pdf]"
  by (simp add: collect_pdf_files_def rglob_def walk_dirs_def endswith_def S_def one_file_def
        src_dir_def a_pdf_def)

lemma broken_worker:
  "process_single_pdf broken_engines (a_pdf, src_dir, out_dir, emb) w
     = (case process_pdf \<lparr>embed_images = emb, image_format = S ''png'', dpi = 300\<rparr> broken_engines a_pdf src_dir out_dir w of
          (Inr u, w1) \<Rightarrow> (True, w1)
        | (Inl e, w1) \<Rightarrow> (False, log_info (Failed_to_process a_pdf e) w1))"
  by (simp add: process_single_pdf_def)

lemma found_world_mkdir:
  "mkdir_parents (butlast a_md) (log_info r2 (log_info r1 empty_world))
     = Inr (log_info r2 (log_info r1 empty_world)\<lparr>dirs := {[]} \<union> set (prefixes out_dir)\<rparr>)"
  by (simp add: mkdir_parents_Inr empty_world_def a_md_parent log_info_def)


lemma md_folder: "\<not> list_ex is_surrogate (markdown_of False (S ''images'') two_pages)"
  by (simp add: markdown_of_def markdown_parts_of_def page_fragments_def image_fragment_def
        file_ref_fragment_def page_header_def image_filename_def zero_pad_def digits.simps
        two_pages_def png1_def png2_def S_def is_surrogate_def enumerate_eq_zip upt_rec
        numeral_2_eq_2 numeral_3_eq_3)

lemma b64_png1: "b64encode (img_bytes png1) = S ''AQID''" "b64encode (img_bytes png2) = S ''BAU=''"
  by (simp_all add: b64encode_def b64_char_def png1_def png2_def S_def)

lemma md_embed: "\<not> list_ex is_surrogate (markdown_of True (S ''images'') two_pages)"
  by (simp add: markdown_of_def markdown_parts_of_def page_fragments_def image_fragment_def
        data_uri_fragment_def b64_png1 page_header_def digits.simps
        two_pages_def enumerate_eq_zip upt_rec)
     (simp add: png1_def png2_def S_def is_surrogate_def)

lemma image_engines_doc: "fitz_open image_engines p = Some (map engine_page two_pages)"
  by (simp add: image_engines_def)

lemma out_world_images_free: "folder_free images_dir out_world"
  by (simp add: folder_free_def out_world_def images_dir_def out_dir_def)

lemma out_world_a_md:
  "butlast a_md \<in> dirs out_world" "a_md \<notin> dirs out_world" "\<not> prefix a_md images_dir"
  "butlast a_md @ [S ''images''] = images_dir"
  by (simp_all add: out_world_def a_md_def images_dir_def out_dir_def S_def)

lemma image_run_folder:
  "fst (convert_pdf_with_pymupdf V3 False image_engines a_pdf a_md (Some images_dir) out_world)"
  by (rule primary_succeeds[OF image_engines_doc out_world_a_md(1,2)])
     (simp_all add: folder_ref_name_def md_folder out_world_images_free out_world_a_md)

lemma image_run_embed:
  "fst (convert_pdf_with_pymupdf V3 True image_engines a_pdf a_md None out_world)"
  by (rule primary_succeeds[OF image_engines_doc out_world_a_md(1,2)])
     (simp_all add: folder_ref_name_def md_embed)

lemma inj_engine_page: "map engine_page d = map engine_page doc \<Longrightarrow> d = doc"
proof -
  have "inj engine_page"
    by (auto simp add: inj_on_def engine_page_def prod_eq_iff dest: map_injective)
  then show "map engine_page d = map engine_page doc \<Longrightarrow> d = doc" by (simp add: inj_map_eq_map)
qed

lemma two_pages_writes:
  "image_writes images_dir 1 two_pages
     = [(images_dir @ [S ''image_001_01.png''], [1, 2, 3]), (images_dir @ [S ''image_001_02.png''], [4, 5])]"
  by (simp add: image_writes_def page_image_writes_def image_filename_def zero_pad_def digits.simps
        two_pages_def png1_def png2_def S_def enumerate_eq_zip upt_rec numeral_2_eq_2 numeral_3_eq_3)

lemma png_names:
  "image_filename 1 0 (S ''png'') = S ''image_001_01.png''"
  "image_filename 1 1 (S ''png'') = S ''image_001_02.png''"
  by (simp_all add: image_filename_def zero_pad_def digits.simps S_def numeral_2_eq_2 numeral_3_eq_3)

lemma utf8_hi: "utf8_encode (S ''hi'') = Some [104, 105]"
  by (simp add: utf8_encode_def utf8_char_def S_def is_surrogate_def)

lemma empty_world_mkdir_out: "mkdir_parents (butlast a_md) empty_world = Inr out_world"
  by (simp add: mkdir_parents_Inr empty_world_def out_world_def a_md_parent) auto

lemma two_pages_markdown:
  "markdown_of False ref two_pages
     = join [10] [page_header 1 (S ''one''), file_ref_fragment ref (S ''image_001_01.png''),
                  file_ref_fragment ref (S ''image_001_02.png''), page_header 2 (S ''two'')]"
  by (simp add: markdown_of_def markdown_parts_of_def page_fragments_def image_fragment_def
        two_pages_def png1_def png2_def enumerate_eq_zip upt_rec png_names[simplified] numeral_2_eq_2)

lemma two_pages_encodable:
  "\<not> list_ex is_surrogate ref \<Longrightarrow> \<not> list_ex is_surrogate (markdown_of False ref two_pages)"
  unfolding two_pages_markdown
  by (simp add: file_ref_fragment_def page_header_def digits.simps S_def is_surrogate_def
        list_ex_iff numeral_2_eq_2)

lemma two_pages_writes_in:
  "image_writes f 1 two_pages
     = [(f @ [S ''image_001_01.png''], [1, 2, 3]), (f @ [S ''image_001_02.png''], [4, 5])]"
  by (simp add: image_writes_def page_image_writes_def two_pages_def png1_def png2_def
        enumerate_eq_zip upt_rec png_names[simplified] numeral_2_eq_2)

lemma two_pages_job:
  assumes free: "folder_free f out_world" and np: "\<not> prefix a_md f"
    and ref: "folder_ref_name ver (Some f) = ref" and enc: "\<not> list_ex is_surrogate ref"
  shows "fst (convert_with_fallback ver False image_engines a_pdf a_md (Some f) empty_world) = Inr ()
       \<and> files (snd (convert_with_fallback ver False image_engines a_pdf a_md (Some f) empty_world))
           = [f @ [S ''image_001_01.png''] \<mapsto> [1, 2, 3], f @ [S ''image_001_02.png''] \<mapsto> [4, 5]]
               (a_md := utf8_encode (join [10] [page_header 1 (S ''one''),
                    file_ref_fragment ref (S ''image_001_01.png''),
                    file_ref_fragment ref (S ''image_001_02.png''), page_header 2 (S ''two'')]))"
proof -
  let ?run = "convert_pdf_with_pymupdf ver False image_engines a_pdf a_md (Some f) out_world"
  have ok: "fst ?run"
    by (rule primary_succeeds[OF image_engines_doc out_world_a_md(1,2)])
       (simp_all add: ref two_pages_encodable[OF enc] free np)
  then obtain w' where r: "?run = (True, w')" by (cases ?run) auto
  then have "pymupdf_try ver False image_engines a_pdf a_md (Some f) out_world = (Inr (), w')"
    by (simp add: convert_pdf_with_pymupdf_True)
  from pymupdf_try_folder_files[OF this] obtain doc
    where d: "fitz_open image_engines a_pdf = Some (map engine_page doc)"
      and fs: "files w' = (write_all (image_writes f 1 doc) (files out_world))
                           (a_md := utf8_encode (markdown_of False (folder_ref_name ver (Some f)) doc))"
    by blast
  from d have "doc = two_pages" by (simp add: image_engines_doc inj_engine_page)
  with fs have "files w' = [f @ [S ''image_001_01.png''] \<mapsto> [1, 2, 3], f @ [S ''image_001_02.png''] \<mapsto> [4, 5]]
               (a_md := utf8_encode (markdown_of False ref two_pages))"
    by (simp add: two_pages_writes_in[simplified] ref out_world_def)
  then show ?thesis
    by (simp add: convert_with_fallback_def empty_world_mkdir_out r two_pages_markdown)
qed

lemma v1_folder_run:
  assumes rel: "\<not> is_absolute folder" and free: "folder_free (out_dir @ folder) out_world"
    and np: "\<not> prefix a_md (out_dir @ folder)"
    and ref: "path_name (out_dir @ folder) = ref" and enc: "\<not> list_ex is_surrogate ref"
  shows "fst (process_pdf_v1 image_engines src_dir a_pdf out_dir (Some folder) False empty_world) = Inr ()
       \<and> files (snd (process_pdf_v1 image_engines src_dir a_pdf out_dir (Some folder) False empty_world))
           = [out_dir @ folder @ [S ''image_001_01.png''] \<mapsto> [1, 2, 3],
              out_dir @ folder @ [S ''image_001_02.png''] \<mapsto> [4, 5]]
               (a_md := utf8_encode (join [10] [page_header 1 (S ''one''),
                    file_ref_fragment ref (S ''image_001_01.png''),
                    file_ref_fragment ref (S ''image_001_02.png''), page_header 2 (S ''two'')]))"
proof -
  have "folder_ref_name V1 (Some (out_dir @ folder)) = ref"
    by (simp add: folder_ref_name_def ref)
  from two_pages_job[OF free np this enc] rel show ?thesis
    by (simp add: process_pdf_v1_eq[OF a_md_path] joinpath_def a_md_parent(1))
qed

lemma v3_folder_run:
  "fst (process_pdf folder_mode image_engines a_pdf src_dir out_dir empty_world) = Inr ()
       \<and> files (snd (process_pdf folder_mode image_engines a_pdf src_dir out_dir empty_world))
           = [out_dir @ [S ''images'', S ''image_001_01.png''] \<mapsto> [1, 2, 3],
              out_dir @ [S ''images'', S ''image_001_02.png''] \<mapsto> [4, 5]]
               (a_md := utf8_encode (join [10] [page_header 1 (S ''one''),
                    file_ref_fragment (S ''images'') (S ''image_001_01.png''),
                    file_ref_fragment (S ''images'') (S ''image_001_02.png''), page_header 2 (S ''two'')]))"
proof -
  have "folder_ref_name V3 (Some images_dir) = S ''images''"
    by (simp add: folder_ref_name_def)
  moreover have "\<not> list_ex is_surrogate (S ''images'')"
    by (simp add: S_def is_surrogate_def)
  ultimately show ?thesis
    using two_pages_job[OF out_world_images_free out_world_a_md(3), of V3 "S ''images''"]
    by (simp add: process_pdf_eq[OF a_md_path] folder_mode_def out_world_a_md(4))
       (simp add: images_dir_def out_dir_def)
qed

lemma two_pages_md_encoded:
  "\<not> list_ex is_surrogate ref \<Longrightarrow>
   utf8_encode (join [10] [page_header 1 (S ''one''), file_ref_fragment ref (S ''image_001_01.png''),
                    file_ref_fragment ref (S ''image_001_02.png''), page_header 2 (S ''two'')]) \<noteq> None"
  using two_pages_encodable[of ref] by (simp add: utf8_encode_None two_pages_markdown)

section \<open>The claims\<close>

text \<open>
  C6. When the primary conversion succeeds in folder mode, in either version, the
  image files it has written are those of the extracted document under the names
  \<^verbatim>\<open>image_filename page_num img_index ext\<close>, the pages counted from 1 and the images
  of a page from 0 (so the index in the name, \<^verbatim>\<open>img_index + 1\<close>, starts at 1): there
  is one name per image, the names are distinct, each file holds the bytes of its own
  image, and the Markdown refers to the images by the same names. A document whose
  first page has two images and whose second page has none gets exactly the names
  \<^verbatim>\<open>image_001_01\<close> and \<^verbatim>\<open>image_001_02\<close>, each with its extension. The name
  determines the page, the index and the extension.
\<close>

theorem converter_names_images_uniquely:
  assumes "fst (convert_pdf_with_pymupdf ver False env pdf_path output_path (Some folder) w)"
  shows "\<exists>doc. fitz_open env pdf_path = Some (map engine_page doc)
           \<and> (let w' = snd (convert_pdf_with_pymupdf ver False env pdf_path output_path (Some folder) w);
                   names = concat (map (\<lambda>(page_num, p).
                                          map (\<lambda>(img_index, bi). image_filename page_num img_index (img_ext bi))
                                            (enumerate 0 (snd p)))
                                     (enumerate 1 doc));
                   images = concat (map snd doc)
               in length names = length images
                \<and> distinct names
                \<and> files w' = (write_all (zip (map (\<lambda>name. folder @ [name]) names) (map img_bytes images)) (files w))
                               (output_path := files w' output_path)
                \<and> (\<forall>k < length images. folder @ [names ! k] \<noteq> output_path
                       \<longrightarrow> files w' (folder @ [names ! k]) = Some (img_bytes (images ! k)))
                \<and> files w' output_path
                    = utf8_encode (join [10] (concat (map (\<lambda>(page_num, p).
                          page_header page_num (fst p)
                            # map (\<lambda>(img_index, bi).
                                     file_ref_fragment (folder_ref_name ver (Some folder))
                                       (image_filename page_num img_index (img_ext bi)))
                                (enumerate 0 (snd p)))
                        (enumerate 1 doc))))
                \<and> (\<forall>t1 b1 b2 t2. doc = [(t1, [b1, b2]), (t2, [])]
                       \<longrightarrow> names = [S ''image_001_01.'' @ img_ext b1, S ''image_001_02.'' @ img_ext b2]))
       \<and> (image_filename p i e = image_filename p' i' e' \<longleftrightarrow> p = p' \<and> i = i' \<and> e = e')"
proof -
  let ?c = "convert_pdf_with_pymupdf ver False env pdf_path output_path (Some folder) w"
  let ?names = "\<lambda>doc. concat (map (\<lambda>(page_num, p).
                                          map (\<lambda>(img_index, bi). image_filename page_num img_index (img_ext bi))
                                            (enumerate 0 (snd p)))
                                     (enumerate 1 doc))"
  from assms have t: "pymupdf_try ver False env pdf_path output_path (Some folder) w = (Inr (), snd ?c)"
    by (simp add: convert_pdf_with_pymupdf_fst)
  from pymupdf_try_folder_files[OF t]
  obtain doc where doc: "fitz_open env pdf_path = Some (map engine_page doc)"
    and fs: "files (snd ?c) = (write_all (image_writes folder 1 doc) (files w))
                           (output_path := utf8_encode (markdown_of False (folder_ref_name ver (Some folder)) doc))"
    by blast
  let ?ws = "zip (map (\<lambda>name. folder @ [name]) (?names doc)) (map img_bytes (concat (map snd doc)))"
  have ws: "image_writes folder 1 doc = ?ws" by (rule image_writes_zip)
  have len: "length (?names doc) = length (concat (map snd doc))" by (rule names_length)
  have dist: "distinct (?names doc)"
    using names_from_distinct[of 1 doc] by (simp add: page_image_names_def)
  from fs have out: "files (snd ?c) output_path
      = utf8_encode (markdown_of False (folder_ref_name ver (Some folder)) doc)" by simp
  have md: "markdown_of False (folder_ref_name ver (Some folder)) doc
      = join [10] (concat (map (\<lambda>(page_num, p).
                          page_header page_num (fst p)
                            # map (\<lambda>(img_index, bi).
                                     file_ref_fragment (folder_ref_name ver (Some folder))
                                       (image_filename page_num img_index (img_ext bi)))
                                (enumerate 0 (snd p)))
                        (enumerate 1 doc)))"
    by (simp add: markdown_of_def markdown_parts_of_def page_fragments_def image_fragment_def)
  have fs': "files (snd ?c) = (write_all ?ws (files w))
                           (output_path := utf8_encode (markdown_of False (folder_ref_name ver (Some folder)) doc))"
    using fs unfolding ws .
  have closed: "files (snd ?c) = (write_all ?ws (files w))(output_path := files (snd ?c) output_path)"
    unfolding out by (rule fs')
  have each: "files (snd ?c) (folder @ [?names doc ! k]) = Some (img_bytes (concat (map snd doc) ! k))"
    if k: "k < length (concat (map snd doc))" and ne: "folder @ [?names doc ! k] \<noteq> output_path" for k
  proof -
    define names where "names = ?names doc"
    define images where "images = concat (map snd doc)"
    define zs where "zs = zip (map (\<lambda>name. folder @ [name]) names) (map img_bytes images)"
    from k len have kz: "k < length zs" by (simp add: zs_def names_def images_def)
    then have "zs ! k = (folder @ [names ! k], img_bytes (images ! k))"
      by (simp add: zs_def)
    with nth_mem[OF kz] have mem: "(folder @ [names ! k], img_bytes (images ! k)) \<in> set zs"
      by simp
    from image_writes_distinct[of folder 1 doc] have "distinct (map fst zs)"
      unfolding ws zs_def names_def images_def .
    from write_all_distinct[OF this mem]
    have "write_all zs (files w) (folder @ [names ! k]) = Some (img_bytes (images ! k))" .
    then have "write_all ?ws (files w) (folder @ [?names doc ! k]) = Some (img_bytes (concat (map snd doc) ! k))"
      unfolding zs_def names_def images_def .
    with ne show ?thesis
      by (subst fs') simp
  qed
  have example: "?names doc = [S ''image_001_01.'' @ img_ext b1, S ''image_001_02.'' @ img_ext b2]"
    if "doc = [(t1, [b1, b2]), (t2, [])]" for t1 b1 b2 t2
    using image_names_example[of t1 b1 b2 t2] that
    by (simp add: image_names_def page_image_names_def)
  show ?thesis
    unfolding Let_def
  proof (intro conjI exI[of _ doc])
    show "fitz_open env pdf_path = Some (map engine_page doc)" by (rule doc)
    show "length (?names doc) = length (concat (map snd doc))" by (rule len)
    show "distinct (?names doc)" by (rule dist)
    show "files (snd ?c) = (write_all ?ws (files w))(output_path := files (snd ?c) output_path)"
      by (rule closed)
    show "\<forall>k < length (concat (map snd doc)). folder @ [?names doc ! k] \<noteq> output_path
             \<longrightarrow> files (snd ?c) (folder @ [?names doc ! k]) = Some (img_bytes (concat (map snd doc) ! k))"
      using each by blast
    show "files (snd ?c) output_path
            = utf8_encode (join [10] (concat (map (\<lambda>(page_num, p).
                          page_header page_num (fst p)
                            # map (\<lambda>(img_index, bi).
                                     file_ref_fragment (folder_ref_name ver (Some folder))
                                       (image_filename page_num img_index (img_ext bi)))
                                (enumerate 0 (snd p)))
                        (enumerate 1 doc))))"
      by (simp only: out md)
    show "\<forall>t1 b1 b2 t2. doc = [(t1, [b1, b2]), (t2, [])]
             \<longrightarrow> ?names doc = [S ''image_001_01.'' @ img_ext b1, S ''image_001_02.'' @ img_ext b2]"
      using example by blast
    show "(image_filename p i e = image_filename p' i' e') = (p = p' \<and> i = i' \<and> e = e')"
      by (rule image_filename_eq_iff)
  qed
qed

theorem converter_names_images_uniquely_witness:
  "fst (convert_pdf_with_pymupdf V3 False image_engines a_pdf a_md (Some images_dir) out_world)
   \<and> files (snd (convert_pdf_with_pymupdf V3 False image_engines a_pdf a_md (Some images_dir) out_world))
       = (write_all [(images_dir @ [S ''image_001_01.png''], [1, 2, 3]),
                     (images_dir @ [S ''image_001_02.png''], [4, 5])] (files out_world))
           (a_md := files (snd (convert_pdf_with_pymupdf V3 False image_engines a_pdf a_md (Some images_dir) out_world)) a_md)
   \<and> files (snd (convert_pdf_with_pymupdf V3 False image_engines a_pdf a_md (Some images_dir) out_world))
        (images_dir @ [S ''image_001_01.png'']) = Some [1, 2, 3]
   \<and> files (snd (convert_pdf_with_pymupdf V3 False image_engines a_pdf a_md (Some images_dir) out_world))
        (images_dir @ [S ''image_001_02.png'']) = Some [4, 5]
   \<and> files (snd (convert_pdf_with_pymupdf V3 False image_engines a_pdf a_md (Some images_dir) out_world))
        (images_dir @ [S ''image_002_01.png'']) = None
   \<and> files (snd (convert_pdf_with_pymupdf V3 False image_engines a_pdf a_md (Some images_dir) out_world)) a_md
       = utf8_encode (join [10]
           [page_header 1 (S ''one''),
            file_ref_fragment (S ''images'') (S ''image_001_01.png''),
            file_ref_fragment (S ''images'') (S ''image_001_02.png''),
            page_header 2 (S ''two'')])"
proof -
  let ?W = "snd (convert_pdf_with_pymupdf V3 False image_engines a_pdf a_md (Some images_dir) out_world)"
  note run = image_run_folder
  from converter_names_images_uniquely[OF run, unfolded Let_def,
         where p = 0 and i = 0 and e = "[]" and p' = 0 and i' = 0 and e' = "[]"]
  show ?thesis
  proof (elim exE conjE)
    fix doc
    assume doc: "fitz_open image_engines a_pdf = Some (map engine_page doc)"
    and closed: "files ?W = (write_all (zip (map (\<lambda>name. images_dir @ [name])
                    (concat (map (\<lambda>(page_num, p).
                                          map (\<lambda>(img_index, bi). image_filename page_num img_index (img_ext bi))
                                            (enumerate 0 (snd p)))
                                     (enumerate 1 doc))))
                  (map img_bytes (concat (map snd doc)))) (files out_world))
               (a_md := files ?W a_md)"
    and out: "files ?W a_md
                    = utf8_encode (join [10] (concat (map (\<lambda>(page_num, p).
                          page_header page_num (fst p)
                            # map (\<lambda>(img_index, bi).
                                     file_ref_fragment (folder_ref_name V3 (Some images_dir))
                                       (image_filename page_num img_index (img_ext bi)))
                                (enumerate 0 (snd p)))
                        (enumerate 1 doc))))"
  from doc have d: "doc = two_pages" by (simp add: image_engines_doc inj_engine_page)
  from closed have c: "files ?W = (write_all [(images_dir @ [S ''image_001_01.png''], [1, 2, 3]),
                     (images_dir @ [S ''image_001_02.png''], [4, 5])] (files out_world))
           (a_md := files ?W a_md)"
    unfolding d image_writes_zip[symmetric] two_pages_writes .
  have ne: "images_dir @ [S ''image_001_01.png''] \<noteq> a_md" "images_dir @ [S ''image_001_02.png''] \<noteq> a_md"
    "images_dir @ [S ''image_002_01.png''] \<noteq> a_md"
    "S ''image_001_01.png'' \<noteq> S ''image_001_02.png''"
    "S ''image_002_01.png'' \<noteq> S ''image_001_01.png''" "S ''image_002_01.png'' \<noteq> S ''image_001_02.png''"
    by (simp_all add: images_dir_def a_md_def S_def)
  have f1: "files ?W (images_dir @ [S ''image_001_01.png'']) = Some [1, 2, 3]"
    by (subst c) (simp add: ne)
  have f2: "files ?W (images_dir @ [S ''image_001_02.png'']) = Some [4, 5]"
    by (subst c) (simp add: ne)
  have f3: "files ?W (images_dir @ [S ''image_002_01.png'']) = None"
    by (subst c) (simp add: ne out_world_def)
  have md: "files ?W a_md = utf8_encode (join [10]
           [page_header 1 (S ''one''),
            file_ref_fragment (S ''images'') (S ''image_001_01.png''),
            file_ref_fragment (S ''images'') (S ''image_001_02.png''),
            page_header 2 (S ''two'')])"
    unfolding out d
    by (simp add: two_pages_def png1_def png2_def folder_ref_name_def enumerate_eq_zip upt_rec
          png_names[simplified] numeral_2_eq_2)
  from run c f1 f2 f3 md show ?thesis by (intro conjI)
  qed
qed

text \<open>
  \<^bold>\<open>C5\<close> The fallback engine runs exactly when the primary converter has reported failure,
  and at most once.  For every job that returns, with \<open>w1\<close> the world after the output
  directory has been created and \<open>primary\<close> the run of \<open>convert_pdf_with_pymupdf\<close> there:
  if the primary returned \<open>True\<close>, the job ends in the primary's world and its log is the
  primary's two records, so no fallback record exists; if it returned \<open>False\<close>, the log of
  the primary ends with its failure record, and the job adds exactly one attempt record of the
  fallback followed by exactly one outcome record, fixed by the engine's answer: no text is a
  failure that leaves the files alone; a text for a target that is a directory is a failure
  that leaves the files alone; a text that cannot be encoded is a failure that leaves the target
  truncated; any other text is a success and the target holds the UTF-8 bytes of that text.
\<close>

theorem fallback_exactly_when_primary_fails:
  assumes out: "output_path_of pdf_path source_dir output_dir = Some output_path"
    and ret: "fst (process_pdf self env pdf_path source_dir output_dir w) = Inr ()"
  shows "\<exists>w1. mkdir_parents (butlast output_path) w = Inr w1 \<and>
     (let folder = (if \<not> embed_images self then Some (butlast output_path @ [S ''images'']) else None);
          primary = convert_pdf_with_pymupdf V3 (embed_images self) env pdf_path output_path folder w1;
          w2 = snd primary;
          w' = snd (process_pdf self env pdf_path source_dir output_dir w);
          attempt = [Converting_with_markitdown pdf_path output_path]
      in if fst primary then
           w' = w2
           \<and> (\<exists>c. logged w' = logged w @ [Converting_with_PyMuPDF pdf_path output_path,
                                         PyMuPDF_converted (path_name pdf_path) c])
         else
           (\<exists>e. logged w2 = logged w @ [Converting_with_PyMuPDF pdf_path output_path,
                                        PyMuPDF_failed pdf_path e])
           \<and> dirs w' = dirs w2
           \<and> (case markitdown_convert env pdf_path of
                None \<Rightarrow>
                  logged w' = logged w2 @ attempt @ [Markitdown_failed pdf_path ConversionFailed]
                  \<and> files w' = files w2
              | Some md_text \<Rightarrow>
                  if output_path \<in> dirs w2 then
                    logged w' = logged w2 @ attempt @ [Markitdown_failed pdf_path IsADirectoryError]
                    \<and> files w' = files w2
                  else
                    (case utf8_encode md_text of
                       None \<Rightarrow>
                         logged w' = logged w2 @ attempt @ [Markitdown_failed pdf_path UnicodeEncodeError]
                         \<and> files w' = (files w2)(output_path \<mapsto> [])
                     | Some bs \<Rightarrow>
                         logged w' = logged w2 @ attempt @ [Markitdown_converted (path_name pdf_path)]
                         \<and> files w' = (files w2)(output_path \<mapsto> bs))))"
proof -
  let ?folder = "if \<not> embed_images self then Some (butlast output_path @ [S ''images'']) else None"
  from ret have "\<forall>q \<in> set (prefixes (butlast output_path)). files w q = None"
    by (simp add: process_pdf_eq[OF out] convert_with_fallback_returns)
  then have mk: "mkdir_parents (butlast output_path) w = Inr (w\<lparr>dirs := dirs w \<union> set (prefixes (butlast output_path))\<rparr>)"
    by (simp add: mkdir_parents_Inr)
  let ?w1 = "w\<lparr>dirs := dirs w \<union> set (prefixes (butlast output_path))\<rparr>"
  obtain ok w2 where p: "convert_pdf_with_pymupdf V3 (embed_images self) env pdf_path output_path ?folder ?w1 = (ok, w2)"
    by (cases "convert_pdf_with_pymupdf V3 (embed_images self) env pdf_path output_path ?folder ?w1")
  have run: "process_pdf self env pdf_path source_dir output_dir w
     = (Inr (), if ok then w2 else convert_pdf_with_markitdown V3 env pdf_path output_path w2)"
    by (simp add: process_pdf_eq[OF out] convert_with_fallback_def mk p)
  have body: "if ok then
           snd (process_pdf self env pdf_path source_dir output_dir w) = w2
           \<and> (\<exists>c. logged (snd (process_pdf self env pdf_path source_dir output_dir w))
                     = logged w @ [Converting_with_PyMuPDF pdf_path output_path,
                                         PyMuPDF_converted (path_name pdf_path) c])
         else
           (\<exists>e. logged w2 = logged w @ [Converting_with_PyMuPDF pdf_path output_path,
                                        PyMuPDF_failed pdf_path e])
           \<and> dirs (snd (process_pdf self env pdf_path source_dir output_dir w)) = dirs w2
           \<and> (case markitdown_convert env pdf_path of
                None \<Rightarrow>
                  logged (snd (process_pdf self env pdf_path source_dir output_dir w))
                    = logged w2 @ [Converting_with_markitdown pdf_path output_path] @ [Markitdown_failed pdf_path ConversionFailed]
                  \<and> files (snd (process_pdf self env pdf_path source_dir output_dir w)) = files w2
              | Some md_text \<Rightarrow>
                  if output_path \<in> dirs w2 then
                    logged (snd (process_pdf self env pdf_path source_dir output_dir w))
                      = logged w2 @ [Converting_with_markitdown pdf_path output_path] @ [Markitdown_failed pdf_path IsADirectoryError]
                    \<and> files (snd (process_pdf self env pdf_path source_dir output_dir w)) = files w2
                  else
                    (case utf8_encode md_text of
                       None \<Rightarrow>
                         logged (snd (process_pdf self env pdf_path source_dir output_dir w))
                           = logged w2 @ [Converting_with_markitdown pdf_path output_path] @ [Markitdown_failed pdf_path UnicodeEncodeError]
                         \<and> files (snd (process_pdf self env pdf_path source_dir output_dir w)) = (files w2)(output_path \<mapsto> [])
                     | Some bs \<Rightarrow>
                         logged (snd (process_pdf self env pdf_path source_dir output_dir w))
                           = logged w2 @ [Converting_with_markitdown pdf_path output_path] @ [Markitdown_converted (path_name pdf_path)]
                         \<and> files (snd (process_pdf self env pdf_path source_dir output_dir w)) = (files w2)(output_path \<mapsto> bs)))"
  proof (cases ok)
    case True
    with p have "pymupdf_try V3 (embed_images self) env pdf_path output_path ?folder ?w1 = (Inr (), w2)"
      by (simp add: convert_pdf_with_pymupdf_True)
    from pymupdf_try_logged[OF this] True show ?thesis by (simp add: run)
  next
    case False
    with p obtain e w1' where t: "pymupdf_try V3 (embed_images self) env pdf_path output_path ?folder ?w1 = (Inl e, w1')"
      and w2: "w2 = log_info (PyMuPDF_failed pdf_path e) w1'"
      by (auto simp add: convert_pdf_with_pymupdf_False)
    from pymupdf_try_logged[OF t] w2
    have lg: "logged w2 = logged w @ [Converting_with_PyMuPDF pdf_path output_path, PyMuPDF_failed pdf_path e]"
      by simp
    from pymupdf_try_le[OF t] w2 have "butlast output_path \<in> dirs w2"
      by (auto simp add: le_world_def)
    note m = convert_pdf_with_markitdown_eq[OF this, of env pdf_path]
    from False lg show ?thesis
      by (auto simp add: run m Let_def split: option.splits)
  qed
  show ?thesis
    apply (rule exI[of _ ?w1])
    apply (rule conjI)
     apply (rule mk)
    unfolding Let_def p fst_conv snd_conv
    by (rule body)
qed

theorem fallback_exactly_when_primary_fails_witness:
  "output_path_of a_pdf src_dir out_dir = Some a_md
   \<and> fst (process_pdf folder_mode fallback_engines a_pdf src_dir out_dir empty_world) = Inr ()
   \<and> logged (snd (process_pdf folder_mode fallback_engines a_pdf src_dir out_dir empty_world))
       = [Converting_with_PyMuPDF a_pdf a_md, PyMuPDF_failed a_pdf ExtractionFailed,
          Converting_with_markitdown a_pdf a_md, Markitdown_converted (path_name a_pdf)]
   \<and> files (snd (process_pdf folder_mode fallback_engines a_pdf src_dir out_dir empty_world))
       = [a_md \<mapsto> [104, 105]]
   \<and> utf8_encode (S ''hi'') = Some [104, 105]"
proof -
  let ?w' = "snd (process_pdf folder_mode fallback_engines a_pdf src_dir out_dir empty_world)"
  have fo: "fitz_open fallback_engines a_pdf = None"
    and mc: "markitdown_convert fallback_engines a_pdf = Some (S ''hi'')"
    by (simp_all add: fallback_engines_def)
  have nd: "a_md \<notin> {[]} \<union> set (prefixes out_dir)"
    by (simp add: a_md_parent a_md_def out_dir_def)
  from fallback_exactly_when_primary_fails[OF a_md_path empty_world_job_returns,
      of folder_mode fallback_engines, unfolded Let_def a_md_parent(1)]
  have "logged ?w' = [Converting_with_PyMuPDF a_pdf a_md, PyMuPDF_failed a_pdf ExtractionFailed,
          Converting_with_markitdown a_pdf a_md, Markitdown_converted (path_name a_pdf)]
      \<and> files ?w' = [a_md \<mapsto> [104, 105]]"
    unfolding empty_world_mkdir primary_fails_to_open[OF fo]
    using nd by (simp add: mc utf8_hi empty_world_def)
  with a_md_path empty_world_job_returns utf8_hi show ?thesis by simp
qed



text \<open>
  C2, as the code has it. When both conversions of a job fail, and neither failure is
  the encoding error of the final write (raised after the output file has been opened),
  the derived target path holds after the job exactly what it held before: no output
  file exists there if none existed before the job. A file left by an earlier run
  stays, and a write that fails on encoding leaves the file it has just opened.
\<close>

theorem failed_job_leaves_target_as_it_was:
  assumes out: "output_path_of pdf_path source_dir output_dir = Some output_path"
    and lg: "logged (snd (process_pdf self env pdf_path source_dir output_dir w))
               = logged w @ [Converting_with_PyMuPDF pdf_path output_path, PyMuPDF_failed pdf_path e1,
                             Converting_with_markitdown pdf_path output_path, Markitdown_failed pdf_path e2]"
    and e1: "e1 \<noteq> UnicodeEncodeError" and e2: "e2 \<noteq> UnicodeEncodeError"
  shows "files (snd (process_pdf self env pdf_path source_dir output_dir w)) output_path = files w output_path"
proof -
  let ?folder = "if \<not> embed_images self then Some (butlast output_path @ [S ''images'']) else None"
  obtain r w' where p: "convert_with_fallback V3 (embed_images self) env pdf_path output_path ?folder w = (r, w')"
    by (cases "convert_with_fallback V3 (embed_images self) env pdf_path output_path ?folder w")
  from lg have lg': "logged w' = logged w @ [Converting_with_PyMuPDF pdf_path output_path, PyMuPDF_failed pdf_path e1,
                             Converting_with_markitdown pdf_path output_path, Markitdown_failed pdf_path e2]"
    by (simp add: process_pdf_eq[OF out] p)
  have folder: "\<forall>f. ?folder = Some f \<longrightarrow> butlast output_path \<noteq> f" by auto
  from p have "files w' output_path = files w output_path"
  proof (cases rule: convert_with_fallback_cases)
    case (raised e)
    then show ?thesis by simp
  next
    case (primary w1)
    from pymupdf_try_logged[OF primary(2)] primary(1) lg' show ?thesis
      by (auto simp add: mkdir_parents_Inr)
  next
    case (fallback w1 e w2)
    from pymupdf_try_logged[OF fallback(2)] markitdown_try_logged[OF fallback(3)] fallback(1) lg'
    show ?thesis by (auto simp add: mkdir_parents_Inr)
  next
    case (both_failed w1 e w2 e' w3)
    from pymupdf_try_logged[OF both_failed(2)] markitdown_try_logged[OF both_failed(3)]
      both_failed(1,5) lg'
    have "e = e1" "e' = e2" by (auto simp add: mkdir_parents_Inr)
    with e1 e2 pymupdf_try_failed_target[OF both_failed(2) _ folder]
      markitdown_try_failed_target[OF both_failed(3)] both_failed(1,5)
    show ?thesis by (simp add: mkdir_parents_Inr)
  qed
  then show ?thesis by (simp add: process_pdf_eq[OF out] p)
qed

theorem failed_job_leaves_target_as_it_was_witness:
  "output_path_of a_pdf src_dir out_dir = Some a_md
   \<and> logged (snd (process_pdf folder_mode broken_engines a_pdf src_dir out_dir empty_world))
       = logged empty_world @ [Converting_with_PyMuPDF a_pdf a_md, PyMuPDF_failed a_pdf ExtractionFailed,
                               Converting_with_markitdown a_pdf a_md, Markitdown_failed a_pdf ConversionFailed]
   \<and> ExtractionFailed \<noteq> UnicodeEncodeError \<and> ConversionFailed \<noteq> UnicodeEncodeError
   \<and> files (snd (process_pdf folder_mode broken_engines a_pdf src_dir out_dir empty_world)) a_md = None"
  using failed_job_leaves_target_as_it_was[OF a_md_path broken_job(1), of folder_mode]
  by (simp add: a_md_path broken_job)

text \<open>
  C2 as stated fails: with \<^verbatim>\<open>out/a.md\<close> left by an earlier run, both conversions fail
  and the file is still there after the job; and on a document whose text holds a lone
  surrogate, with no output file before the job, the primary conversion fails in
  \<^verbatim>\<open>md_file.write\<close>, the fallback fails, and the empty file the primary opened remains.
\<close>

theorem failed_job_output_file_counterexample:
  "(files stale_world a_md = Some [1]
    \<and> logged (snd (process_pdf folder_mode broken_engines a_pdf src_dir out_dir stale_world))
        = [Converting_with_PyMuPDF a_pdf a_md, PyMuPDF_failed a_pdf ExtractionFailed,
           Converting_with_markitdown a_pdf a_md, Markitdown_failed a_pdf ConversionFailed]
    \<and> files (snd (process_pdf folder_mode broken_engines a_pdf src_dir out_dir stale_world)) a_md = Some [1])
   \<and> (files empty_world a_md = None
    \<and> logged (snd (process_pdf folder_mode surrogate_engines a_pdf src_dir out_dir empty_world))
        = [Converting_with_PyMuPDF a_pdf a_md, PyMuPDF_failed a_pdf UnicodeEncodeError,
           Converting_with_markitdown a_pdf a_md, Markitdown_failed a_pdf ConversionFailed]
    \<and> files (snd (process_pdf folder_mode surrogate_engines a_pdf src_dir out_dir empty_world)) a_md = Some [])"
  by (simp only: stale_job surrogate_job broken_job(2) simp_thms)

text \<open>
  C1 against the code. On a source tree with the single file \<^verbatim>\<open>a.pdf\<close>, on which the
  primary and the fallback conversion both fail, the worker answers True: the
  dispatcher logs both failures and then one file processed successfully out of one,
  while no output file exists. \<^verbatim>\<open>process_single_pdf\<close> answers False only when
  \<^verbatim>\<open>process_pdf\<close> raises, and the converters swallow their own exceptions.
\<close>

theorem failed_file_counted_as_success:
  "fst (process_single_pdf broken_engines (a_pdf, src_dir, out_dir, False) empty_world) = True
   \<and> logged (snd (process_pdfs_parallel broken_engines 4 src_dir out_dir False None one_file empty_world))
       = [Found_PDF_files 1, Using_worker_processes 1,
          Converting_with_PyMuPDF a_pdf a_md, PyMuPDF_failed a_pdf ExtractionFailed,
          Converting_with_markitdown a_pdf a_md, Markitdown_failed a_pdf ConversionFailed,
          Successfully_processed 1 1]
   \<and> files (snd (process_pdfs_parallel broken_engines 4 src_dir out_dir False None one_file empty_world)) a_md = None"
proof -
  have a: "fst (process_single_pdf broken_engines (a_pdf, src_dir, out_dir, False) empty_world) = True"
    by (simp add: broken_worker broken_job_run)
  have job: "process_pdf self broken_engines a_pdf src_dir out_dir (log_info r2 (log_info r1 empty_world))
     = (Inr (), log_info (Markitdown_failed a_pdf ConversionFailed)
                (log_info (Converting_with_markitdown a_pdf a_md)
                   (log_info (PyMuPDF_failed a_pdf ExtractionFailed)
                      (log_info (Converting_with_PyMuPDF a_pdf a_md)
                         (log_info r2 (log_info r1 empty_world)\<lparr>dirs := {[]} \<union> set (prefixes out_dir)\<rparr>)))))"
    for self r1 r2
    using both_fail_job[OF broken_engines_fail found_world_mkdir]
    by (simp only: process_pdf_eq[OF a_md_path])
  have run: "process_pdfs_parallel broken_engines 4 src_dir out_dir False None one_file empty_world
     = (Inr (), log_info (Successfully_processed 1 1)
                 (log_info (Markitdown_failed a_pdf ConversionFailed)
                (log_info (Converting_with_markitdown a_pdf a_md)
                   (log_info (PyMuPDF_failed a_pdf ExtractionFailed)
                      (log_info (Converting_with_PyMuPDF a_pdf a_md)
                         (log_info (Using_worker_processes 1) (log_info (Found_PDF_files 1) empty_world)
                            \<lparr>dirs := {[]} \<union> set (prefixes out_dir)\<rparr>))))))"
    by (simp add: process_pdfs_parallel_def one_file_collected broken_worker job)
  have b: "logged (snd (process_pdfs_parallel broken_engines 4 src_dir out_dir False None one_file empty_world))
       = [Found_PDF_files 1, Using_worker_processes 1,
          Converting_with_PyMuPDF a_pdf a_md, PyMuPDF_failed a_pdf ExtractionFailed,
          Converting_with_markitdown a_pdf a_md, Markitdown_failed a_pdf ConversionFailed,
          Successfully_processed 1 1]"
    and c: "files (snd (process_pdfs_parallel broken_engines 4 src_dir out_dir False None one_file empty_world)) a_md = None"
    unfolding run by (simp_all add: empty_world_def)
  from a b c show ?thesis by (intro conjI)
qed

text \<open>
  C3 against the code. The sequential walk tests \<^verbatim>\<open>file.lower().endswith(".pdf")\<close> and
  finds \<^verbatim>\<open>X.PDF\<close>; the dispatcher collects with \<^verbatim>\<open>rglob("*.pdf")\<close>, which matches
  the case of the pattern, and finds nothing. The glob also yields a directory named
  \<^verbatim>\<open>d.pdf\<close>, which the walk, looking only at files, leaves out.
\<close>

theorem parallel_discovery_is_case_sensitive:
  "walk_pdf_paths src_dir upper_case_file = [[S ''src'', S ''X.PDF'']]
   \<and> collect_pdf_files src_dir upper_case_file = []
   \<and> walk_pdf_paths src_dir pdf_named_directory = []
   \<and> collect_pdf_files src_dir pdf_named_directory = [[S ''src'', S ''d.pdf'']]"
  by (simp add: walk_pdf_paths_def collect_pdf_files_def rglob_def os_walk_def walk_dirs_def
        endswith_def lower_def S_def upper_case_file_def pdf_named_directory_def src_dir_def)

text \<open>
  C7. When the primary conversion succeeds, the output file holds the UTF-8 encoding
  of the Markdown text built from the extracted document: the fragments of the pages
  in page order, joined by newlines, where the fragments of a page are its header
  \<^verbatim>\<open>### Page N\<close> (N counted from 1) with the text of the page, followed by the
  references of the images of the page in the order the engine lists them.
\<close>

theorem primary_markdown_layout:
  assumes "fst (convert_pdf_with_pymupdf V3 emb env pdf_path output_path image_folder w)"
  shows "\<exists>doc. fitz_open env pdf_path = Some (map engine_page doc)
           \<and> utf8_encode (markdown_of emb (S ''images'') doc) \<noteq> None
           \<and> files (snd (convert_pdf_with_pymupdf V3 emb env pdf_path output_path image_folder w)) output_path
               = utf8_encode (markdown_of emb (S ''images'') doc)
           \<and> markdown_of emb (S ''images'') doc
               = join [10] (concat (map (\<lambda>(page_num, p).
                                          page_header page_num (fst p)
                                            # map (\<lambda>(img_index, bi). image_fragment emb (S ''images'') page_num img_index bi)
                                                (enumerate 0 (snd p)))
                                      (enumerate 1 doc)))
           \<and> page_header n t = S ''### Page '' @ digits n @ [10, 10] @ t @ [10]"
proof -
  from assms have "pymupdf_try V3 emb env pdf_path output_path image_folder w
           = (Inr (), snd (convert_pdf_with_pymupdf V3 emb env pdf_path output_path image_folder w))"
    by (simp add: convert_pdf_with_pymupdf_fst)
  from pymupdf_try_Inr[OF this] show ?thesis
    by (auto simp add: folder_ref_name_def markdown_of_def markdown_parts_of_def page_fragments_def
          page_header_def)
qed

theorem primary_markdown_layout_witness:
  "fst (convert_pdf_with_pymupdf V3 False image_engines a_pdf a_md (Some images_dir) out_world)
   \<and> (\<exists>doc. fitz_open image_engines a_pdf = Some (map engine_page doc)
           \<and> utf8_encode (markdown_of False (S ''images'') doc) \<noteq> None
           \<and> files (snd (convert_pdf_with_pymupdf V3 False image_engines a_pdf a_md (Some images_dir) out_world)) a_md
               = utf8_encode (markdown_of False (S ''images'') doc)
           \<and> markdown_of False (S ''images'') doc
               = join [10] (concat (map (\<lambda>(page_num, p).
                                          page_header page_num (fst p)
                                            # map (\<lambda>(img_index, bi). image_fragment False (S ''images'') page_num img_index bi)
                                                (enumerate 0 (snd p)))
                                      (enumerate 1 doc)))
           \<and> page_header 1 (S ''one'') = S ''### Page '' @ digits 1 @ [10, 10] @ S ''one'' @ [10])"
  by (intro conjI image_run_folder primary_markdown_layout[OF image_run_folder])

text \<open>
  C8. Embedding and the image folder exclude each other. With \<^verbatim>\<open>embed_images\<close> the
  primary conversion, whether it succeeds or fails, changes no directory and no file
  but the output file, and on success every image fragment of the Markdown is a base64
  data URI. Without it, on success, the files are those of before with every image
  written under its name into \<^verbatim>\<open>images\<close> beside the Markdown file, each holding the
  bytes of its image, and the Markdown is built from the page texts and the image
  names alone: no image bytes enter it.
\<close>

theorem embed_and_folder_mode_exclusive:
  assumes "fst (convert_pdf_with_pymupdf V3 emb env pdf_path output_path
                  (if emb then None else Some (butlast output_path @ [S ''images''])) w)"
  shows "dirs (snd (convert_pdf_with_pymupdf V3 True env pdf_path output_path None w)) = dirs w
       \<and> files (snd (convert_pdf_with_pymupdf V3 True env pdf_path output_path None w))
           = (files w)(output_path :=
                files (snd (convert_pdf_with_pymupdf V3 True env pdf_path output_path None w)) output_path)
       \<and> (\<exists>doc. fitz_open env pdf_path = Some (map engine_page doc)
            \<and> utf8_encode (markdown_of emb (S ''images'') doc) \<noteq> None
            \<and> (let w' = snd (convert_pdf_with_pymupdf V3 emb env pdf_path output_path
                               (if emb then None else Some (butlast output_path @ [S ''images''])) w);
                    folder = butlast output_path @ [S ''images'']
                in if emb then
                     dirs w' = dirs w
                     \<and> files w' = (files w)(output_path := utf8_encode (markdown_of True (S ''images'') doc))
                     \<and> markdown_of True (S ''images'') doc
                         = join [10] (concat (map (\<lambda>(page_num, p).
                               page_header page_num (fst p) # map data_uri_fragment (snd p))
                             (enumerate 1 doc)))
                   else
                     files w' = (write_all (image_writes folder 1 doc) (files w))
                                  (output_path := utf8_encode (markdown_of False (S ''images'') doc))
                     \<and> (\<forall>(p, bs) \<in> set (image_writes folder 1 doc). files w' p = Some bs)
                     \<and> map fst (image_writes folder 1 doc) = map (\<lambda>name. folder @ [name]) (image_names doc)
                     \<and> markdown_of False (S ''images'') doc
                         = join [10] (concat (map (\<lambda>(page_num, p).
                               page_header page_num (fst p)
                                 # map (file_ref_fragment (S ''images'')) (page_image_names page_num (snd p)))
                             (enumerate 1 doc)))))"
proof -
  let ?e = "convert_pdf_with_pymupdf V3 True env pdf_path output_path None w"
  obtain r we where e: "pymupdf_try V3 True env pdf_path output_path None w = (r, we)"
    by (cases "pymupdf_try V3 True env pdf_path output_path None w")
  from pymupdf_try_embedded[OF e] have fr: "dirs we = dirs w" "\<And>p. p \<noteq> output_path \<Longrightarrow> files we p = files w p"
    by auto
  have se: "dirs (snd ?e) = dirs we" "files (snd ?e) = files we"
    by (cases r; simp add: convert_pdf_with_pymupdf_def e)+
  have A: "dirs (snd ?e) = dirs w" by (simp add: se fr)
  have B: "files (snd ?e) = (files w)(output_path := files (snd ?e) output_path)"
    by (rule ext) (simp add: se fr)
  let ?c = "convert_pdf_with_pymupdf V3 emb env pdf_path output_path
              (if emb then None else Some (butlast output_path @ [S ''images''])) w"
  let ?folder = "butlast output_path @ [S ''images'']"
  from assms have t: "pymupdf_try V3 emb env pdf_path output_path
              (if emb then None else Some ?folder) w = (Inr (), snd ?c)"
    by (simp add: convert_pdf_with_pymupdf_fst)
  have C: "\<exists>doc. fitz_open env pdf_path = Some (map engine_page doc)
            \<and> utf8_encode (markdown_of emb (S ''images'') doc) \<noteq> None
            \<and> (if emb then
                     dirs (snd ?c) = dirs w
                     \<and> files (snd ?c) = (files w)(output_path := utf8_encode (markdown_of True (S ''images'') doc))
                     \<and> markdown_of True (S ''images'') doc
                         = join [10] (concat (map (\<lambda>(page_num, p).
                               page_header page_num (fst p) # map data_uri_fragment (snd p))
                             (enumerate 1 doc)))
                   else
                     files (snd ?c) = (write_all (image_writes ?folder 1 doc) (files w))
                                  (output_path := utf8_encode (markdown_of False (S ''images'') doc))
                     \<and> (\<forall>(p, bs) \<in> set (image_writes ?folder 1 doc). files (snd ?c) p = Some bs)
                     \<and> map fst (image_writes ?folder 1 doc) = map (\<lambda>name. ?folder @ [name]) (image_names doc)
                     \<and> markdown_of False (S ''images'') doc
                         = join [10] (concat (map (\<lambda>(page_num, p).
                               page_header page_num (fst p)
                                 # map (file_ref_fragment (S ''images'')) (page_image_names page_num (snd p)))
                             (enumerate 1 doc))))"
  proof (cases emb)
    case True
    then have eq: "emb = True" by simp
    from pymupdf_try_embedded_files[OF t[unfolded eq if_True]] True show ?thesis
      by (auto simp add: folder_ref_name_def markdown_of_def markdown_parts_embedded)
  next
    case False
    then have eq: "emb = False" by simp
    from pymupdf_try_folder_files[OF t[unfolded eq if_False]]
    obtain doc where doc: "fitz_open env pdf_path = Some (map engine_page doc)"
      "utf8_encode (markdown_of False (S ''images'') doc) \<noteq> None"
      "files (snd ?c) = (write_all (image_writes ?folder 1 doc) (files w))
                           (output_path := utf8_encode (markdown_of False (S ''images'') doc))"
      by (auto simp add: folder_ref_name_def False)
    have each: "files (snd ?c) p = Some bs" if "(p, bs) \<in> set (image_writes ?folder 1 doc)" for p bs
    proof -
      from image_writes_in_folder[OF that] have "p \<noteq> output_path" by auto
      with doc(3) write_all_distinct[OF image_writes_distinct that] show ?thesis by simp
    qed
    have names: "map fst (image_writes ?folder 1 doc) = map (\<lambda>name. ?folder @ [name]) (image_names doc)"
      by (simp add: image_writes_paths image_names_def)
    from doc each names False show ?thesis
      by (intro exI[of _ doc]) (auto simp add: markdown_of_def markdown_parts_folder)
  qed
  from A B C show ?thesis by (simp add: Let_def)
qed

theorem embed_and_folder_mode_exclusive_witness:
  "fst (convert_pdf_with_pymupdf V3 False image_engines a_pdf a_md
          (if False then None else Some (butlast a_md @ [S ''images''])) out_world)
   \<and> files (snd (convert_pdf_with_pymupdf V3 False image_engines a_pdf a_md (Some images_dir) out_world))
        (images_dir @ [S ''image_001_01.png'']) = Some [1, 2, 3]
   \<and> files (snd (convert_pdf_with_pymupdf V3 False image_engines a_pdf a_md (Some images_dir) out_world))
        (images_dir @ [S ''image_001_02.png'']) = Some [4, 5]
   \<and> fst (convert_pdf_with_pymupdf V3 True image_engines a_pdf a_md
          (if True then None else Some (butlast a_md @ [S ''images''])) out_world)
   \<and> dirs (snd (convert_pdf_with_pymupdf V3 True image_engines a_pdf a_md None out_world)) = dirs out_world
   \<and> files (snd (convert_pdf_with_pymupdf V3 True image_engines a_pdf a_md None out_world))
        (images_dir @ [S ''image_001_01.png'']) = None"
proof -
  have f: "fst (convert_pdf_with_pymupdf V3 False image_engines a_pdf a_md
          (if False then None else Some (butlast a_md @ [S ''images''])) out_world)"
    using image_run_folder by (simp add: out_world_a_md)
  have e: "fst (convert_pdf_with_pymupdf V3 True image_engines a_pdf a_md
          (if True then None else Some (butlast a_md @ [S ''images''])) out_world)"
    using image_run_embed by simp
  from embed_and_folder_mode_exclusive[OF f]
  obtain doc where doc: "fitz_open image_engines a_pdf = Some (map engine_page doc)"
    and all: "\<forall>(p, bs) \<in> set (image_writes images_dir 1 doc).
               files (snd (convert_pdf_with_pymupdf V3 False image_engines a_pdf a_md (Some images_dir) out_world)) p = Some bs"
    by (auto simp add: Let_def out_world_a_md)
  from doc have "doc = two_pages" by (simp add: image_engines_doc inj_engine_page)
  have tw: "image_writes images_dir (Suc 0) two_pages
     = [(images_dir @ [S ''image_001_01.png''], [1, 2, 3]), (images_dir @ [S ''image_001_02.png''], [4, 5])]"
    using two_pages_writes by simp
  from all \<open>doc = two_pages\<close> have w: "files (snd (convert_pdf_with_pymupdf V3 False image_engines a_pdf a_md (Some images_dir) out_world))
        (images_dir @ [S ''image_001_01.png'']) = Some [1, 2, 3]"
     "files (snd (convert_pdf_with_pymupdf V3 False image_engines a_pdf a_md (Some images_dir) out_world))
        (images_dir @ [S ''image_001_02.png'']) = Some [4, 5]"
    by (simp_all add: tw)
  from embed_and_folder_mode_exclusive[OF e]
  have d: "dirs (snd (convert_pdf_with_pymupdf V3 True image_engines a_pdf a_md None out_world)) = dirs out_world"
    and fr: "files (snd (convert_pdf_with_pymupdf V3 True image_engines a_pdf a_md None out_world))
           = (files out_world)(a_md :=
                files (snd (convert_pdf_with_pymupdf V3 True image_engines a_pdf a_md None out_world)) a_md)"
    by blast+
  have ne: "images_dir @ [S ''image_001_01.png''] \<noteq> a_md" by (simp add: images_dir_def a_md_def)
  have n: "files (snd (convert_pdf_with_pymupdf V3 True image_engines a_pdf a_md None out_world))
        (images_dir @ [S ''image_001_01.png'']) = None"
    by (subst fr) (simp add: ne out_world_def)
  from f w e d n show ?thesis by (intro conjI)
qed

text \<open>
  \<^bold>\<open>C4\<close> In folder mode the reference emitted for an image is to name, relative to the
  directory of the Markdown file, the folder the bytes of the image were written into.
  V1 run with \<^verbatim>\<open>--image-folder a/b\<close> on \<^verbatim>\<open>src/a.pdf\<close>, a document of two pages with two
  images on the first, breaks it: the job returns, the images are written to
  \<^verbatim>\<open>out/a/b/image_001_01.png\<close> and \<^verbatim>\<open>out/a/b/image_001_02.png\<close>, the Markdown file
  \<^verbatim>\<open>out/a.md\<close> is written and refers to \<^verbatim>\<open>b/image_001_01.png\<close> and
  \<^verbatim>\<open>b/image_001_02.png\<close>, and nothing exists at \<^verbatim>\<open>out/b/image_001_01.png\<close> or
  \<^verbatim>\<open>out/b/image_001_02.png\<close>, the files these references name from the directory of the
  Markdown file. On the same document V1 with \<^verbatim>\<open>--image-folder pics\<close> writes under
  \<^verbatim>\<open>out/pics\<close> and refers to \<^verbatim>\<open>pics/\<close>, and V3 writes under \<^verbatim>\<open>out/images\<close> and refers
  to \<^verbatim>\<open>images/\<close>.
\<close>

theorem v1_nested_image_folder_reference_dangles:
  "fst (process_pdf_v1 image_engines src_dir a_pdf out_dir (Some nested_folder) False empty_world) = Inr ()
   \<and> files (snd (process_pdf_v1 image_engines src_dir a_pdf out_dir (Some nested_folder) False empty_world))
       = [[S ''out'', S ''a'', S ''b'', S ''image_001_01.png''] \<mapsto> [1, 2, 3],
          [S ''out'', S ''a'', S ''b'', S ''image_001_02.png''] \<mapsto> [4, 5]]
           (a_md := utf8_encode (join [10] [page_header 1 (S ''one''),
                S ''![Image](b/image_001_01.png)'' @ [10],
                S ''![Image](b/image_001_02.png)'' @ [10], page_header 2 (S ''two'')]))
   \<and> files (snd (process_pdf_v1 image_engines src_dir a_pdf out_dir (Some nested_folder) False empty_world))
        a_md \<noteq> None
   \<and> files (snd (process_pdf_v1 image_engines src_dir a_pdf out_dir (Some nested_folder) False empty_world))
        (butlast a_md @ [S ''b'', S ''image_001_01.png'']) = None
   \<and> files (snd (process_pdf_v1 image_engines src_dir a_pdf out_dir (Some nested_folder) False empty_world))
        (butlast a_md @ [S ''b'', S ''image_001_02.png'']) = None
   \<and> files (snd (process_pdf_v1 image_engines src_dir a_pdf out_dir (Some pics_folder) False empty_world))
       = [[S ''out'', S ''pics'', S ''image_001_01.png''] \<mapsto> [1, 2, 3],
          [S ''out'', S ''pics'', S ''image_001_02.png''] \<mapsto> [4, 5]]
           (a_md := utf8_encode (join [10] [page_header 1 (S ''one''),
                S ''![Image](pics/image_001_01.png)'' @ [10],
                S ''![Image](pics/image_001_02.png)'' @ [10], page_header 2 (S ''two'')]))
   \<and> files (snd (process_pdf folder_mode image_engines a_pdf src_dir out_dir empty_world))
       = [[S ''out'', S ''images'', S ''image_001_01.png''] \<mapsto> [1, 2, 3],
          [S ''out'', S ''images'', S ''image_001_02.png''] \<mapsto> [4, 5]]
           (a_md := utf8_encode (join [10] [page_header 1 (S ''one''),
                S ''![Image](images/image_001_01.png)'' @ [10],
                S ''![Image](images/image_001_02.png)'' @ [10], page_header 2 (S ''two'')]))"
proof -
  let ?n = "snd (process_pdf_v1 image_engines src_dir a_pdf out_dir (Some nested_folder) False empty_world)"
  have eb: "\<not> list_ex is_surrogate (S ''b'')" and ep: "\<not> list_ex is_surrogate (S ''pics'')"
    by (simp_all add: S_def is_surrogate_def)
  have frag: "file_ref_fragment (S ''b'') (S ''image_001_01.png'') = S ''![Image](b/image_001_01.png)'' @ [10]"
    "file_ref_fragment (S ''b'') (S ''image_001_02.png'') = S ''![Image](b/image_001_02.png)'' @ [10]"
    "file_ref_fragment (S ''pics'') (S ''image_001_01.png'') = S ''![Image](pics/image_001_01.png)'' @ [10]"
    "file_ref_fragment (S ''pics'') (S ''image_001_02.png'') = S ''![Image](pics/image_001_02.png)'' @ [10]"
    "file_ref_fragment (S ''images'') (S ''image_001_01.png'') = S ''![Image](images/image_001_01.png)'' @ [10]"
    "file_ref_fragment (S ''images'') (S ''image_001_02.png'') = S ''![Image](images/image_001_02.png)'' @ [10]"
    by (simp_all add: file_ref_fragment_def S_def)
  have n: "fst (process_pdf_v1 image_engines src_dir a_pdf out_dir (Some nested_folder) False empty_world) = Inr ()
     \<and> files ?n = [[S ''out'', S ''a'', S ''b'', S ''image_001_01.png''] \<mapsto> [1, 2, 3],
          [S ''out'', S ''a'', S ''b'', S ''image_001_02.png''] \<mapsto> [4, 5]]
           (a_md := utf8_encode (join [10] [page_header 1 (S ''one''),
                S ''![Image](b/image_001_01.png)'' @ [10],
                S ''![Image](b/image_001_02.png)'' @ [10], page_header 2 (S ''two'')]))"
  proof -
    have "\<not> is_absolute nested_folder"
      by (simp add: nested_folder_def is_absolute_def S_def)
    moreover have "folder_free (out_dir @ nested_folder) out_world"
      by (simp add: folder_free_def out_world_def out_dir_def nested_folder_def)
    moreover have "\<not> prefix a_md (out_dir @ nested_folder)"
      by (simp add: a_md_def out_dir_def nested_folder_def S_def)
    moreover have "path_name (out_dir @ nested_folder) = S ''b''"
      by (simp add: path_name_def nested_folder_def)
    ultimately show ?thesis
      using v1_folder_run[of nested_folder "S ''b''", OF _ _ _ _ eb]
      by (simp add: frag out_dir_def nested_folder_def)
  qed
  have p: "files (snd (process_pdf_v1 image_engines src_dir a_pdf out_dir (Some pics_folder) False empty_world))
       = [[S ''out'', S ''pics'', S ''image_001_01.png''] \<mapsto> [1, 2, 3],
          [S ''out'', S ''pics'', S ''image_001_02.png''] \<mapsto> [4, 5]]
           (a_md := utf8_encode (join [10] [page_header 1 (S ''one''),
                S ''![Image](pics/image_001_01.png)'' @ [10],
                S ''![Image](pics/image_001_02.png)'' @ [10], page_header 2 (S ''two'')]))"
  proof -
    have "\<not> is_absolute pics_folder"
      by (simp add: pics_folder_def is_absolute_def S_def)
    moreover have "folder_free (out_dir @ pics_folder) out_world"
      by (simp add: folder_free_def out_world_def out_dir_def pics_folder_def)
    moreover have "\<not> prefix a_md (out_dir @ pics_folder)"
      by (simp add: a_md_def out_dir_def pics_folder_def S_def)
    moreover have "path_name (out_dir @ pics_folder) = S ''pics''"
      by (simp add: path_name_def pics_folder_def)
    ultimately show ?thesis
      using v1_folder_run[of pics_folder "S ''pics''", OF _ _ _ _ ep]
      by (simp add: frag out_dir_def pics_folder_def)
  qed
  have v: "files (snd (process_pdf folder_mode image_engines a_pdf src_dir out_dir empty_world))
       = [[S ''out'', S ''images'', S ''image_001_01.png''] \<mapsto> [1, 2, 3],
          [S ''out'', S ''images'', S ''image_001_02.png''] \<mapsto> [4, 5]]
           (a_md := utf8_encode (join [10] [page_header 1 (S ''one''),
                S ''![Image](images/image_001_01.png)'' @ [10],
                S ''![Image](images/image_001_02.png)'' @ [10], page_header 2 (S ''two'')]))"
    using v3_folder_run by (simp add: frag out_dir_def)
  from two_pages_md_encoded[OF eb] have md: "files ?n a_md \<noteq> None"
    by (simp add: n frag)
  have d1: "files ?n (butlast a_md @ [S ''b'', S ''image_001_01.png'']) = None"
    "files ?n (butlast a_md @ [S ''b'', S ''image_001_02.png'']) = None"
    by (simp_all add: n) (simp_all add: a_md_def S_def)
  from n p v md d1 show ?thesis by blast
qed

end
